theory Spec2Isabelle
  imports Complex_Main
begin

section \<open>Ride dispatch: maps-service, rides-service and the dispatcher worker\<close>

text \<open>
  A shallow embedding of the dispatch path of the cab booking services:
  \<^item> \<^verbatim>\<open>services/maps-service/server.js\<close>: \<^verbatim>\<open>GET /multi-eta\<close>;
  \<^item> \<^verbatim>\<open>services/rides-service/server.js\<close>: \<^verbatim>\<open>computeDispatch\<close>,
    \<^verbatim>\<open>POST /offers/start\<close>, \<^verbatim>\<open>POST /ack-offer\<close>, \<^verbatim>\<open>GET /get-fare\<close>,
    \<^verbatim>\<open>POST /create\<close>, \<^verbatim>\<open>POST /confirm\<close>, \<^verbatim>\<open>GET /start-ride\<close>;
  \<^item> \<^verbatim>\<open>services/dispatcher-worker/worker.js\<close>: the offer job.

  Document ids (Mongo ObjectIds) are natural numbers. A collection is a map from ids to
  documents, or a list whose positions are the ids where documents are only ever added.
  A JavaScript number that holds seconds or an index is an \<open>int\<close>; \<open>null\<close> is
  \<open>None\<close>. An HTTP call to another service is a parameter holding that service's reply.
\<close>

subsection \<open>maps-service: \<^verbatim>\<open>GET /multi-eta\<close>\<close>

text \<open>The outcome of an outbound request: it threw (after the retries), or it replied.\<close>

datatype 'a reply = Failed | Reply 'a

text \<open>\<open>ToNumber\<close> on a duration: \<open>null\<close> compares as \<open>0\<close>.\<close>

fun num_of :: "int option \<Rightarrow> int" where
  "num_of None = 0"
| "num_of (Some v) = v"

text \<open>\<^verbatim>\<open>durations.map(d => (d <= Number(boundSec) ? d : null))\<close>, applied only when
  \<^verbatim>\<open>boundSec\<close> is defined.\<close>

definition bound_filter :: "int option \<Rightarrow> int option list \<Rightarrow> int option list" where
  "bound_filter boundSec durations =
     (case boundSec of
        None \<Rightarrow> durations
      | Some b \<Rightarrow> map (\<lambda>d. if num_of d \<le> b then d else None) durations)"

text \<open>
  \<^verbatim>\<open>filtered.reduce((best, d, i) => (d !== null && (best < 0 || d < filtered[best]) ? i : best), -1)\<close>.
  The first argument is the whole array (read at \<open>best\<close>), the second what is left of it,
  the third the index of its head. A read outside the array gives \<open>undefined\<close>, and a
  comparison with it is false.
\<close>

fun reduce_best :: "int option list \<Rightarrow> int option list \<Rightarrow> nat \<Rightarrow> int \<Rightarrow> int" where
  "reduce_best filtered [] i best = best"
| "reduce_best filtered (d # ds) i best =
     reduce_best filtered ds (Suc i)
       (if d \<noteq> None \<and>
           (best < 0 \<or> (nat best < length filtered \<and> num_of d < num_of (filtered ! nat best)))
        then int i else best)"

definition best_of :: "int option list \<Rightarrow> int" where
  "best_of filtered = reduce_best filtered filtered 0 (-1)"

record eta_payload =
  durations :: "int option list"
  bestIndex :: int

definition eta_compute :: "int option \<Rightarrow> int option list \<Rightarrow> eta_payload" where
  "eta_compute boundSec ds =
     (let filtered = bound_filter boundSec ds
      in \<lparr>durations = filtered, bestIndex = best_of filtered\<rparr>)"

text \<open>
  What the handler meets outside itself: whether every source and the destination
  resolve to coordinates (\<^verbatim>\<open>resolveAddressOrCoords\<close> throws otherwise), the cache
  entry under the request's key (\<open>None\<close> without Redis, on a miss or on a Redis
  error), \<^verbatim>\<open>useMock()\<close>, the routing service's table when \<^verbatim>\<open>ROUTING_BASE_URL\<close>
  is set (the first column of its \<^verbatim>\<open>durations\<close>), and the distance matrix of the
  fallback provider (\<open>Reply None\<close>: a reply whose status is not \<^verbatim>\<open>OK\<close>).
\<close>

record maps_env =
  resolvable :: bool
  cached :: "eta_payload option"
  use_mock :: bool
  routing :: "int option list reply option"
  matrix :: "int list option reply"

text \<open>An HTTP response: a status code with a JSON body, or a status code with a message.\<close>

datatype 'a response = Resp nat 'a | Fail nat string

fun status_code :: "'a response \<Rightarrow> nat" where
  "status_code (Resp c _) = c"
| "status_code (Fail c _) = c"

text \<open>
  The handler. \<open>sources\<close> is \<^verbatim>\<open>sourcesList\<close>, the \<^verbatim>\<open>sources\<close> parameter split at
  \<^verbatim>\<open>;\<close>; an absent (or empty) \<^verbatim>\<open>sources\<close> or \<^verbatim>\<open>destination\<close> parameter is \<open>None\<close>.
  \<open>boundSec\<close> is \<^verbatim>\<open>Number(boundSec)\<close> when the parameter is given. A computed answer
  is also stored in the cache for 60 seconds; the next request meets it as \<open>cached\<close>.
\<close>

definition multi_eta ::
  "maps_env \<Rightarrow> string list option \<Rightarrow> string option \<Rightarrow> int option \<Rightarrow> eta_payload response" where
  "multi_eta env sources destination boundSec =
     (case (sources, destination) of
        (Some sourcesList, Some dest) \<Rightarrow>
          if \<not> resolvable env then Fail 500 ''Unable to geocode address''
          else
          (case cached env of
             Some p \<Rightarrow> Resp 200 p
           | None \<Rightarrow>
               if use_mock env \<and> routing env = None
               then Resp 200 \<lparr>durations = map (\<lambda>_. Some 300) sourcesList, bestIndex = 0\<rparr>
               else
                 (case routing env of
                    Some r \<Rightarrow>
                      (case r of
                         Failed \<Rightarrow> Fail 500 ''request failed''
                       | Reply ds \<Rightarrow> Resp 200 (eta_compute boundSec ds))
                  | None \<Rightarrow>
                      (case matrix env of
                         Failed \<Rightarrow> Fail 500 ''request failed''
                       | Reply None \<Rightarrow> Fail 500 ''Unable to fetch durations''
                       | Reply (Some ds) \<Rightarrow> Resp 200 (eta_compute boundSec (map Some ds)))))
      | _ \<Rightarrow> Fail 400 ''sources and destination required'')"

text \<open>The specification's words for the bound: an entry greater than the bound is
  replaced by \<open>null\<close>, and nothing else changes.\<close>

definition replace_over :: "int option \<Rightarrow> int option \<Rightarrow> int option" where
  "replace_over boundSec d =
     (case (boundSec, d) of
        (Some b, Some v) \<Rightarrow> if b < v then None else Some v
      | _ \<Rightarrow> d)"

text \<open>The durations a provider answered with, when one did.\<close>

definition provider_table :: "maps_env \<Rightarrow> int option list option" where
  "provider_table env =
     (case routing env of
        Some r \<Rightarrow> (case r of Failed \<Rightarrow> None | Reply ds \<Rightarrow> Some ds)
      | None \<Rightarrow>
          (case matrix env of
             Failed \<Rightarrow> None
           | Reply None \<Rightarrow> None
           | Reply (Some ds) \<Rightarrow> Some (map Some ds)))"

text \<open>The specification's words for \<open>bestIndex\<close>: \<open>-1\<close> when every entry is \<open>null\<close>,
  otherwise the lowest index that holds the least duration.\<close>

definition argmin_lowest :: "int option list \<Rightarrow> int \<Rightarrow> bool" where
  "argmin_lowest ds b \<longleftrightarrow>
     (if list_all (\<lambda>d. d = None) ds then b = -1
      else 0 \<le> b \<and> nat b < length ds \<and>
        (case ds ! nat b of
           None \<Rightarrow> False
         | Some v \<Rightarrow>
             list_all (\<lambda>j. case ds ! j of None \<Rightarrow> True | Some u \<Rightarrow> v \<le> u) [0..<length ds] \<and>
             list_all (\<lambda>j. case ds ! j of None \<Rightarrow> True | Some u \<Rightarrow> v < u) [0..<nat b]))"

text \<open>The same, for the first \<open>n\<close> entries: what the \<^verbatim>\<open>reduce\<close> holds after \<open>n\<close> turns.\<close>

definition min_upto :: "int option list \<Rightarrow> nat \<Rightarrow> int \<Rightarrow> bool" where
  "min_upto xs n b \<longleftrightarrow>
     (if \<forall>j<n. xs ! j = None then b = -1
      else 0 \<le> b \<and> nat b < n \<and>
        (\<exists>v. xs ! nat b = Some v \<and>
             (\<forall>j<n. \<forall>u. xs ! j = Some u \<longrightarrow> v \<le> u) \<and>
             (\<forall>j<nat b. \<forall>u. xs ! j = Some u \<longrightarrow> v < u)))"

subsection \<open>rides-service: the documents\<close>

text \<open>The \<^verbatim>\<open>enum\<close>s of the Mongoose schemas, in the schemas' order.\<close>

datatype cand_status = CPending | COffered | CAck | CTimeout | CRejected | CSkipped | CAssigned

datatype dispatch_status = DPending | DAssigned | DCompleted | DCancelled

datatype ride_status = RPending | RAccepted | ROngoing | RCompleted | RCancelled

record candidate =
  captainId :: nat
  socketId :: "string option"
  etaSec :: "int option"
  cstatus :: cand_status

record dispatch =
  d_user :: nat
  d_pickup :: string
  d_destination :: string
  vehicleType :: "string option"
  candidates :: "candidate list"
  currentIndex :: nat
  rideId :: "nat option"
  dstatus :: dispatch_status

record ride =
  r_user :: nat
  r_captain :: "nat option"
  r_pickup :: string
  r_destination :: string
  fare :: int
  rstatus :: ride_status
  otp :: string

text \<open>A user or captain document, as far as the handlers read it.\<close>

record person =
  p_socketId :: "string option"
  p_password :: "string option"
  p_status :: "string option"

text \<open>
  A ride as a handler serialises it (\<^verbatim>\<open>toObject()\<close> after \<^verbatim>\<open>populate\<close>): the
  \<^verbatim>\<open>otp\<close> field is present only when the read selected it.
\<close>

record ride_view =
  v_id :: nat
  v_user :: "person option"
  v_captain :: "person option"
  v_pickup :: string
  v_destination :: string
  v_fare :: int
  v_status :: ride_status
  v_otp :: "string option"

text \<open>What is sent to the socket service (\<^verbatim>\<open>POST /emit\<close>) or published on Redis.\<close>

datatype event_data =
    OfferData nat nat string string "int option"
  | AcceptedData nat nat
  | AssignedData nat
  | RideData ride_view

record emission =
  to_socket :: "string option"
  event :: string
  payload :: event_data
  sent_at :: nat

text \<open>The body of a \<^verbatim>\<open>201\<close> of \<^verbatim>\<open>POST /create\<close>: the new ride with the surge factor.\<close>

record created_ride =
  c_id :: nat
  c_ride :: ride
  c_surge :: rat

text \<open>
  Everything the two services share or keep: the Mongo collections, the \<^verbatim>\<open>ride_offers\<close>
  queue (dispatch id and \<^verbatim>\<open>ackSec\<close> of each job), the idempotency entries in Redis
  (each with the instant it expires), the events sent, and the clock in milliseconds.
\<close>

record world =
  dispatches :: "dispatch list"
  rides :: "ride list"
  users :: "nat \<rightharpoonup> person"
  captains :: "nat \<rightharpoonup> person"
  jobs :: "(nat \<times> nat) list"
  idem :: "(nat \<times> string) \<rightharpoonup> (nat \<times> created_ride)"
  emitted :: "emission list"
  now :: nat

text \<open>\<^verbatim>\<open>findById\<close>: \<open>null\<close> for an id that no document has.\<close>

definition find_by_id :: "'a list \<Rightarrow> nat \<Rightarrow> 'a option" where
  "find_by_id docs k = (if k < length docs then Some (docs ! k) else None)"

text \<open>\<^verbatim>\<open>findByIdAndUpdate\<close> / \<^verbatim>\<open>updateOne\<close>: nothing happens for an unknown id.\<close>

definition update_by_id :: "'a list \<Rightarrow> nat \<Rightarrow> ('a \<Rightarrow> 'a) \<Rightarrow> 'a list" where
  "update_by_id docs k f = (if k < length docs then docs[k := f (docs ! k)] else docs)"

text \<open>
  \<^verbatim>\<open>$set: { 'candidates.<i>.status': s }\<close>. No writer adds or removes a candidate, so the
  index is inside the array wherever the services use it; outside it the document is left
  as it is here.
\<close>

definition set_cand_status :: "nat \<Rightarrow> cand_status \<Rightarrow> dispatch \<Rightarrow> dispatch" where
  "set_cand_status i s d =
     (if i < length (candidates d)
      then d\<lparr>candidates := (candidates d)[i := (candidates d ! i)\<lparr>cstatus := s\<rparr>]\<rparr>
      else d)"

definition emit :: "string option \<Rightarrow> string \<Rightarrow> event_data \<Rightarrow> world \<Rightarrow> world" where
  "emit sock ev dat w =
     w\<lparr>emitted := emitted w @ [\<lparr>to_socket = sock, event = ev, payload = dat, sent_at = now w\<rparr>]\<rparr>"

subsection \<open>rides-service: \<^verbatim>\<open>POST /ack-offer\<close>\<close>

text \<open>\<^verbatim>\<open>findIndex\<close>: the first position whose element satisfies the test.\<close>

fun find_index :: "('a \<Rightarrow> bool) \<Rightarrow> 'a list \<Rightarrow> nat option" where
  "find_index P [] = None"
| "find_index P (x # xs) =
     (if P x then Some 0 else map_option Suc (find_index P xs))"

text \<open>
  The handler: a read of the dispatch, then an \<^verbatim>\<open>updateOne\<close> whose filter is the id
  alone. A failure of the database, answered \<^verbatim>\<open>500\<close>, is outside the model.
\<close>

definition ack_offer ::
  "nat \<Rightarrow> nat \<Rightarrow> bool \<Rightarrow> dispatch list \<Rightarrow> unit response \<times> dispatch list" where
  "ack_offer dispatchId capId accepted ds =
     (case find_by_id ds dispatchId of
        None \<Rightarrow> (Fail 404 ''Dispatch not pending'', ds)
      | Some d \<Rightarrow>
          if dstatus d \<noteq> DPending then (Fail 404 ''Dispatch not pending'', ds)
          else
            (case find_index (\<lambda>c. captainId c = capId) (candidates d) of
               None \<Rightarrow> (Fail 404 ''Captain not in candidates'', ds)
             | Some idx \<Rightarrow>
                 (Resp 200 (),
                  update_by_id ds dispatchId
                    (set_cand_status idx (if accepted then CAck else CRejected)))))"

subsection \<open>rides-service: \<^verbatim>\<open>computeDispatch\<close> and \<^verbatim>\<open>POST /offers/start\<close>\<close>

text \<open>A captain as the geo query returns it; \<open>h_coords\<close> is the \<^verbatim>\<open>lat,lon\<close> text of
  its location when the location has coordinates.\<close>

record captain_hit =
  h_id :: nat
  h_socketId :: "string option"
  h_coords :: "string option"

text \<open>\<open>eta_calls\<close> lists the \<^verbatim>\<open>boundSec\<close> of each \<^verbatim>\<open>/multi-eta\<close> request made.\<close>

record dispatch_plan =
  plan_captains :: "captain_hit list"
  plan_durations :: "int option list"
  plan_bestIndex :: int
  eta_calls :: "int option list"

text \<open>
  The calibration step, run when \<^verbatim>\<open>ML_BASE_URL\<close> is set: \<open>ml d\<close> is the
  \<^verbatim>\<open>calibratedDuration\<close> answered for the duration \<open>d\<close> when it is a number, and
  \<open>None\<close> otherwise (also when the request failed).
\<close>

definition calibrate ::
  "(int option \<Rightarrow> int option) option \<Rightarrow> eta_payload \<Rightarrow> int option list \<times> int" where
  "calibrate ml r =
     (case ml of
        None \<Rightarrow> (durations r, bestIndex r)
      | Some f \<Rightarrow>
          (let ds = map (\<lambda>d. case f d of Some c \<Rightarrow> Some c | None \<Rightarrow> d) (durations r)
           in (ds, best_of ds)))"

text \<open>
  \<open>found\<close> are the captains of the geo query (active, of the vehicle type, near the
  pickup, at most \<^verbatim>\<open>limit\<close>); \<open>eta sources bound\<close> is the reply of
  \<^verbatim>\<open>GET /multi-eta\<close> for these sources and this \<^verbatim>\<open>boundSec\<close>.
\<close>

definition computeDispatch ::
  "captain_hit list \<Rightarrow> (int option \<Rightarrow> int option) option \<Rightarrow>
   (string list \<Rightarrow> int option \<Rightarrow> eta_payload reply) \<Rightarrow> int option \<Rightarrow> dispatch_plan reply" where
  "computeDispatch found ml eta boundSec =
     (if found = []
      then Reply \<lparr>plan_captains = [], plan_durations = [], plan_bestIndex = -1, eta_calls = []\<rparr>
      else
        (let sources = List.map_filter h_coords found in
         if sources = []
         then Reply \<lparr>plan_captains = [], plan_durations = [], plan_bestIndex = -1, eta_calls = []\<rparr>
         else
           (case eta sources boundSec of
              Failed \<Rightarrow> Failed
            | Reply r \<Rightarrow>
                (case calibrate ml r of
                   (ds, bi) \<Rightarrow>
                     if boundSec \<noteq> None \<and> (bi = -1 \<or> list_all (\<lambda>d. d = None) ds)
                     then
                       (case eta sources None of
                          Failed \<Rightarrow> Failed
                        | Reply r2 \<Rightarrow>
                            Reply \<lparr>plan_captains = found, plan_durations = durations r2,
                                   plan_bestIndex = bestIndex r2, eta_calls = [boundSec, None]\<rparr>)
                     else
                       Reply \<lparr>plan_captains = found, plan_durations = ds,
                              plan_bestIndex = bi, eta_calls = [boundSec]\<rparr>))))"

text \<open>The request of \<^verbatim>\<open>POST /offers/start\<close>: \<open>s_caller\<close> is the \<^verbatim>\<open>_id\<close> of the
  verified token (\<open>None\<close>: \<^verbatim>\<open>auth\<close> throws), \<open>s_idem\<close> the \<^verbatim>\<open>Idempotency-Key\<close>
  header.\<close>

record start_request =
  s_caller :: "nat option"
  s_pickup :: string
  s_destination :: string
  s_vehicleType :: "string option"
  s_boundSec :: "int option"
  s_ackSec :: "nat option"
  s_idem :: "string option"

record start_reply =
  dispatchId :: nat
  candidate_count :: nat
  reply_currentIndex :: nat
  reply_ackSec :: nat

text \<open>\<^verbatim>\<open>Number(req.body.ackSec || 30)\<close>.\<close>

definition ack_or_default :: "nat option \<Rightarrow> nat" where
  "ack_or_default a = (case a of None \<Rightarrow> 30 | Some n \<Rightarrow> if n = 0 then 30 else n)"

text \<open>\<^verbatim>\<open>durations[i] ?? null\<close>.\<close>

definition eta_at :: "int option list \<Rightarrow> nat \<Rightarrow> int option" where
  "eta_at ds i = (if i < length ds then ds ! i else None)"

definition make_candidates :: "captain_hit list \<Rightarrow> int option list \<Rightarrow> candidate list" where
  "make_candidates found ds =
     map (\<lambda>(c, i). \<lparr>captainId = h_id c, socketId = h_socketId c, etaSec = eta_at ds i,
                    cstatus = CPending\<rparr>)
       (zip found [0..<length found])"

text \<open>\<open>queue_on\<close>: \<^verbatim>\<open>REDIS_URL\<close> is set, so \<^verbatim>\<open>offersQueue\<close> exists.\<close>

definition offers_start ::
  "bool \<Rightarrow> captain_hit list \<Rightarrow> (int option \<Rightarrow> int option) option \<Rightarrow>
   (string list \<Rightarrow> int option \<Rightarrow> eta_payload reply) \<Rightarrow> start_request \<Rightarrow> world \<Rightarrow>
   start_reply response \<times> world" where
  "offers_start queue_on found ml eta req w =
     (case s_caller req of
        None \<Rightarrow> (Fail 500 ''Unauthorized'', w)
      | Some uid \<Rightarrow>
          (let ackSec = ack_or_default (s_ackSec req);
               vt = (if s_vehicleType req = Some ''moto'' then Some ''motorcycle''
                     else s_vehicleType req)
           in case computeDispatch found ml eta (s_boundSec req) of
                Failed \<Rightarrow> (Fail 500 ''request failed'', w)
              | Reply plan \<Rightarrow>
                  if plan_captains plan = [] then (Fail 404 ''No captains nearby'', w)
                  else
                    (let cands = make_candidates (plan_captains plan) (plan_durations plan);
                         doc = \<lparr>d_user = uid, d_pickup = s_pickup req,
                                d_destination = s_destination req, vehicleType = vt,
                                candidates = cands,
                                currentIndex = nat (max 0 (plan_bestIndex plan)),
                                rideId = None, dstatus = DPending\<rparr>;
                         did = length (dispatches w);
                         w1 = w\<lparr>dispatches := dispatches w @ [doc]\<rparr>;
                         w2 = (if queue_on then w1\<lparr>jobs := jobs w1 @ [(did, ackSec)]\<rparr> else w1)
                     in (Resp 201 \<lparr>dispatchId = did, candidate_count = length cands,
                                   reply_currentIndex = currentIndex doc,
                                   reply_ackSec = ackSec\<rparr>, w2))))"

subsection \<open>rides-service: fares, \<^verbatim>\<open>GET /get-fare\<close> and \<^verbatim>\<open>POST /create\<close>\<close>











subsection \<open>rides-service: \<^verbatim>\<open>POST /confirm\<close> and \<^verbatim>\<open>GET /start-ride\<close>\<close>

text \<open>
  \<^verbatim>\<open>Ride.findById(id).populate('user').populate('captain')\<close>, with
  \<^verbatim>\<open>.select('+otp')\<close> when \<open>with_otp\<close>: the schema declares \<^verbatim>\<open>otp\<close> with
  \<^verbatim>\<open>select: false\<close>, so a read that does not select it does not return it.
\<close>

definition read_ride :: "bool \<Rightarrow> world \<Rightarrow> nat \<Rightarrow> ride_view option" where
  "read_ride with_otp w k =
     map_option
       (\<lambda>r. \<lparr>v_id = k, v_user = users w (r_user r),
              v_captain = (case r_captain r of None \<Rightarrow> None | Some c \<Rightarrow> captains w c),
              v_pickup = r_pickup r, v_destination = r_destination r, v_fare = fare r,
              v_status = rstatus r,
              v_otp = (if with_otp then Some (otp r) else None)\<rparr>)
       (find_by_id (rides w) k)"

text \<open>\<^verbatim>\<open>if (out.user && out.user.password) delete out.user.password\<close>, and the same for
  the captain.\<close>

definition drop_password :: "person option \<Rightarrow> person option" where
  "drop_password p = map_option (\<lambda>x. x\<lparr>p_password := None\<rparr>) p"

definition sanitize :: "ride_view \<Rightarrow> ride_view" where
  "sanitize out = out\<lparr>v_user := drop_password (v_user out),
                      v_captain := drop_password (v_captain out)\<rparr>"

text \<open>\<open>caller\<close> is the \<^verbatim>\<open>_id\<close> of the verified token. Reading \<^verbatim>\<open>out.user.socketId\<close>
  of a ride whose user is gone throws, after the update.\<close>

definition confirm :: "nat option \<Rightarrow> nat \<Rightarrow> world \<Rightarrow> ride_view response \<times> world" where
  "confirm caller k w =
     (case caller of
        None \<Rightarrow> (Fail 500 ''Unauthorized'', w)
      | Some cid \<Rightarrow>
          (let w1 = w\<lparr>rides := update_by_id (rides w) k
                                 (\<lambda>r. r\<lparr>rstatus := RAccepted, r_captain := Some cid\<rparr>)\<rparr>
           in case read_ride True w1 k of
                None \<Rightarrow> (Fail 500 ''ride is null'', w1)
              | Some found \<Rightarrow>
                  (let out = sanitize found in
                   case v_user out of
                     None \<Rightarrow> (Fail 500 ''user is null'', w1)
                   | Some u \<Rightarrow>
                       (Resp 200 out, emit (p_socketId u) ''ride-confirmed'' (RideData out) w1))))"

definition start_ride :: "nat option \<Rightarrow> nat \<Rightarrow> string \<Rightarrow> world \<Rightarrow> ride_view response \<times> world" where
  "start_ride caller k given_otp w =
     (case caller of
        None \<Rightarrow> (Fail 500 ''Unauthorized'', w)
      | Some _ \<Rightarrow>
          (case read_ride True w k of
             None \<Rightarrow> (Fail 404 ''Ride not found'', w)
           | Some found \<Rightarrow>
               if v_status found \<noteq> RAccepted then (Fail 400 ''Ride not accepted'', w)
               else if v_otp found \<noteq> Some given_otp then (Fail 400 ''Invalid OTP'', w)
               else
                 (let w1 = w\<lparr>rides := update_by_id (rides w) k (\<lambda>r. r\<lparr>rstatus := ROngoing\<rparr>)\<rparr>;
                      out = sanitize found
                  in case v_user out of
                       None \<Rightarrow> (Fail 500 ''user is null'', w1)
                     | Some u \<Rightarrow>
                         (Resp 200 out, emit (p_socketId u) ''ride-started'' (RideData out) w1))))"

subsection \<open>dispatcher-worker: the offer job\<close>

text \<open>
  While a job sleeps between two polls, other writers change the dispatch collection:
  \<^item> \<open>AckOffer\<close>: a captain's \<^verbatim>\<open>POST /ack-offer\<close> whose read and write fall into the
    same second;
  \<^item> \<open>AckUpdate\<close>: the \<^verbatim>\<open>updateOne\<close> alone of a \<^verbatim>\<open>POST /ack-offer\<close> that read the
    dispatch in an earlier second. The handler reads first and writes later, and its
    write is filtered by the id alone, so it lands whatever the dispatch has become;
  \<^item> \<open>SetStatus\<close>: a writer that sets the status of a dispatch (it is "cancelled or
    assigned elsewhere", in the worker's words).
\<close>

datatype ext_write =
    AckOffer nat nat bool
  | AckUpdate nat nat bool
  | SetStatus nat dispatch_status

fun apply_write :: "ext_write \<Rightarrow> dispatch list \<Rightarrow> dispatch list" where
  "apply_write (AckOffer did capId accepted) ds = snd (ack_offer did capId accepted ds)"
| "apply_write (AckUpdate did idx accepted) ds =
     update_by_id ds did (set_cand_status idx (if accepted then CAck else CRejected))"
| "apply_write (SetStatus did s) ds = update_by_id ds did (\<lambda>d. d\<lparr>dstatus := s\<rparr>)"

text \<open>
  \<^verbatim>\<open>await new Promise(r => setTimeout(r, 1000))\<close>. The clock advances only here, by
  one second; \<open>writes t\<close> are the writes that land during the second that ends at \<open>t\<close>.
\<close>

definition sleep :: "(nat \<Rightarrow> ext_write list) \<Rightarrow> world \<Rightarrow> world" where
  "sleep writes w =
     w\<lparr>now := now w + 1000,
       dispatches := fold apply_write (writes (now w + 1000)) (dispatches w)\<rparr>"

text \<open>The world after \<open>k\<close> sleeps: what the poll number \<open>k\<close> of a window reads, when the
  window starts at \<open>w\<close> (poll 0 reads \<open>w\<close> itself).\<close>

definition poll_state :: "(nat \<Rightarrow> ext_write list) \<Rightarrow> world \<Rightarrow> nat \<Rightarrow> world" where
  "poll_state writes w k = (sleep writes ^^ k) w"

datatype wait_result = Stopped | Acked | Elapsed

text \<open>
  The wait for an ack: \<^verbatim>\<open>while (Date.now() - started < ackSec * 1000)\<close>, one read of
  the dispatch in each turn.
\<close>

function wait_ack ::
  "(nat \<Rightarrow> ext_write list) \<Rightarrow> nat \<Rightarrow> nat \<Rightarrow> nat \<Rightarrow> nat \<Rightarrow> world \<Rightarrow> wait_result \<times> world" where
  "wait_ack writes did i ackSec started w =
     (if now w - started < ackSec * 1000
      then
        (case find_by_id (dispatches w) did of
           None \<Rightarrow> (Stopped, w)
         | Some cur \<Rightarrow>
             if dstatus cur \<noteq> DPending then (Stopped, w)
             else if i < length (candidates cur) \<and> cstatus (candidates cur ! i) = CAck
             then (Acked, w)
             else wait_ack writes did i ackSec started (sleep writes w))
      else (Elapsed, w))"
  by pat_completeness auto
termination
  by (relation "measure (\<lambda>(writes, did, i, ackSec, started, w). started + ackSec * 1000 - now w)")
     (auto simp: sleep_def)

declare wait_ack.simps [simp del]

text \<open>How a job ended; the source returns nothing in each case.\<close>

datatype job_result = NoOp | JobStopped | Assigned nat | Exhausted | JobFailed

text \<open>
  The fare of the ride: \<^verbatim>\<open>fr.data?.[vt] || 0\<close> from the reply of
  \<^verbatim>\<open>GET /get-fare\<close> (its fares by vehicle type; the \<^verbatim>\<open>surge\<close> entry of the body
  is not one), and \<open>0\<close> when the request threw.
\<close>

definition worker_fare :: "(string \<rightharpoonup> int) response \<Rightarrow> string option \<Rightarrow> int" where
  "worker_fare fr vtype =
     (let vt = (if vtype = Some ''motorcycle'' then ''moto''
                else case vtype of None \<Rightarrow> ''car'' | Some v \<Rightarrow> if v = [] then ''car'' else v)
      in case fr of
           Fail _ _ \<Rightarrow> 0
         | Resp _ table \<Rightarrow> (case table vt of None \<Rightarrow> 0 | Some f \<Rightarrow> f))"

text \<open>
  The acked branch. \<open>fares pickup destination\<close> is the reply of \<^verbatim>\<open>GET /get-fare\<close>,
  \<open>new_otp\<close> the six digits drawn. A dispatch or a candidate that is not there makes
  the job throw.
\<close>

definition commit ::
  "(string \<Rightarrow> string \<Rightarrow> (string \<rightharpoonup> int) response) \<Rightarrow> string \<Rightarrow> nat \<Rightarrow> nat \<Rightarrow> world \<Rightarrow>
   job_result \<times> world" where
  "commit fares new_otp did i w =
     (case find_by_id (dispatches w) did of
        None \<Rightarrow> (JobFailed, w)
      | Some cur \<Rightarrow>
          if \<not> i < length (candidates cur) then (JobFailed, w)
          else
            (let cand = candidates cur ! i;
                 fare = worker_fare (fares (d_pickup cur) (d_destination cur)) (vehicleType cur);
                 w1 = w\<lparr>captains :=
                          (case captains w (captainId cand) of
                             None \<Rightarrow> captains w
                           | Some p \<Rightarrow> (captains w)(captainId cand \<mapsto> p\<lparr>p_status := Some ''inactive''\<rparr>))\<rparr>;
                 doc = \<lparr>r_user = d_user cur, r_captain = Some (captainId cand),
                        r_pickup = d_pickup cur, r_destination = d_destination cur,
                        fare = fare, rstatus = RAccepted, otp = new_otp\<rparr>;
                 rid = length (rides w1);
                 w2 = w1\<lparr>rides := rides w1 @ [doc]\<rparr>;
                 w3 = w2\<lparr>dispatches := update_by_id (dispatches w2) did
                          (\<lambda>d. set_cand_status i CAssigned
                                 (d\<lparr>dstatus := DAssigned, currentIndex := i, rideId := Some rid\<rparr>))\<rparr>;
                 w4 = emit (socketId cand) ''ride-offer-accepted'' (AcceptedData did rid) w3;
                 w5 = (case users w4 (d_user cur) of
                         None \<Rightarrow> w4
                       | Some u \<Rightarrow>
                           (case p_socketId u of
                              None \<Rightarrow> w4
                            | Some s \<Rightarrow>
                                if s = [] then w4
                                else emit (Some s) ''ride-assigned'' (AssignedData rid) w4))
             in (Assigned rid, w5)))"

text \<open>The timeout branch: \<^verbatim>\<open>{ $set: { 'candidates.<i>.status': 'timeout' }, currentIndex: i + 1 }\<close>.\<close>

definition mark_timeout :: "nat \<Rightarrow> nat \<Rightarrow> world \<Rightarrow> world" where
  "mark_timeout did i w =
     w\<lparr>dispatches := update_by_id (dispatches w) did
         (\<lambda>d. set_cand_status i CTimeout (d\<lparr>currentIndex := i + 1\<rparr>))\<rparr>"

text \<open>After the loop ("No candidate accepted"): \<^verbatim>\<open>{ status: 'cancelled' }\<close>.\<close>

definition no_candidate_accepted :: "nat \<Rightarrow> world \<Rightarrow> world" where
  "no_candidate_accepted did w =
     w\<lparr>dispatches := update_by_id (dispatches w) did (\<lambda>d. d\<lparr>dstatus := DCancelled\<rparr>)\<rparr>"

text \<open>
  The loop over the candidates. \<open>d\<close> is the dispatch as the job loaded it: the loop takes
  its bound, the candidate's socket and the offer's payload from it.
\<close>

function offer_loop ::
  "(nat \<Rightarrow> ext_write list) \<Rightarrow> (string \<Rightarrow> string \<Rightarrow> (string \<rightharpoonup> int) response) \<Rightarrow> string \<Rightarrow>
   nat \<Rightarrow> dispatch \<Rightarrow> nat \<Rightarrow> nat \<Rightarrow> world \<Rightarrow> job_result \<times> world" where
  "offer_loop writes fares new_otp did d ackSec i w =
     (if i < length (candidates d)
      then
        (let c = candidates d ! i;
             w1 = emit (socketId c) ''ride-offer''
                    (OfferData did (captainId c) (d_pickup d) (d_destination d) (etaSec c)) w
         in case wait_ack writes did i ackSec (now w1) w1 of
              (Stopped, w2) \<Rightarrow> (JobStopped, w2)
            | (Acked, w2) \<Rightarrow> commit fares new_otp did i w2
            | (Elapsed, w2) \<Rightarrow>
                offer_loop writes fares new_otp did d ackSec (i + 1) (mark_timeout did i w2))
      else (Exhausted, no_candidate_accepted did w))"
  by pat_completeness auto
termination
  by (relation "measure (\<lambda>(writes, fares, new_otp, did, d, ackSec, i, w). length (candidates d) - i)")
     auto

declare offer_loop.simps [simp del]

text \<open>
  \<^verbatim>\<open>Number(jobAckSec || process.env.OFFER_ACK_SEC || 30)\<close>. \<open>jobAckSec\<close> is a number
  of the job's data (absent, or \<open>0\<close>, it is falsy); \<open>envAckSec\<close> is the number that the
  environment's text stands for, \<open>None\<close> when the variable is unset or empty: the text
  \<^verbatim>\<open>'0'\<close> is truthy, and gives a window of 0 seconds.
\<close>

definition ack_window :: "nat option \<Rightarrow> nat option \<Rightarrow> nat" where
  "ack_window jobAckSec envAckSec =
     (let a = (case jobAckSec of None \<Rightarrow> 0 | Some n \<Rightarrow> n)
      in if a \<noteq> 0 then a
         else (case envAckSec of None \<Rightarrow> 30 | Some e \<Rightarrow> e))"

text \<open>
  The job, with the \<^verbatim>\<open>dispatchId\<close> and \<^verbatim>\<open>ackSec\<close> of its data and the
  \<^verbatim>\<open>OFFER_ACK_SEC\<close> of the environment: a dispatch that is not there or not pending is
  left alone.
\<close>

definition offer_job ::
  "(nat \<Rightarrow> ext_write list) \<Rightarrow> (string \<Rightarrow> string \<Rightarrow> (string \<rightharpoonup> int) response) \<Rightarrow> string \<Rightarrow>
   nat option \<Rightarrow> nat option \<Rightarrow> nat option \<Rightarrow> world \<Rightarrow> job_result \<times> world" where
  "offer_job writes fares new_otp job_dispatch jobAckSec envAckSec w =
     (case job_dispatch of
        None \<Rightarrow> (NoOp, w)
      | Some did \<Rightarrow>
          (case find_by_id (dispatches w) did of
             None \<Rightarrow> (NoOp, w)
           | Some d \<Rightarrow>
               if dstatus d \<noteq> DPending then (NoOp, w)
               else offer_loop writes fares new_otp did d (ack_window jobAckSec envAckSec)
                      (currentIndex d) w))"

subsection \<open>Predicates on the dispatch collection\<close>

text \<open>The dispatch is there and pending, and its candidate \<open>i\<close> is there and not acked:
  what a poll of the wait loop must read to go on waiting, with the index in range.\<close>

definition waiting :: "nat \<Rightarrow> nat \<Rightarrow> dispatch list \<Rightarrow> bool" where
  "waiting did i ds =
     (case find_by_id ds did of
        None \<Rightarrow> False
      | Some d \<Rightarrow>
          dstatus d = DPending \<and> i < length (candidates d) \<and>
          cstatus (candidates d ! i) \<noteq> CAck)"

text \<open>No candidate of the dispatch is marked \<^verbatim>\<open>assigned\<close>.\<close>

definition unassigned :: "nat \<Rightarrow> dispatch list \<Rightarrow> bool" where
  "unassigned did ds =
     (case find_by_id ds did of
        None \<Rightarrow> True
      | Some d \<Rightarrow> list_all (\<lambda>c. cstatus c \<noteq> CAssigned) (candidates d))"

subsection \<open>Example states\<close>

text \<open>Two captains, a rider and a dispatch over given candidates, for the concrete runs.\<close>

definition candA :: "cand_status \<Rightarrow> candidate" where
  "candA s = \<lparr>captainId = 11, socketId = Some ''sA'', etaSec = Some 240, cstatus = s\<rparr>"

definition candB :: "cand_status \<Rightarrow> candidate" where
  "candB s = \<lparr>captainId = 12, socketId = Some ''sB'', etaSec = Some 300, cstatus = s\<rparr>"

definition demo_dispatch :: "candidate list \<Rightarrow> dispatch" where
  "demo_dispatch cs =
     \<lparr>d_user = 1, d_pickup = ''12.97,77.59'', d_destination = ''12.93,77.61'',
      vehicleType = Some ''car'', candidates = cs, currentIndex = 0, rideId = None,
      dstatus = DPending\<rparr>"

definition demo_person :: "string \<Rightarrow> person" where
  "demo_person sock = \<lparr>p_socketId = Some sock, p_password = Some ''hash'', p_status = Some ''active''\<rparr>"

definition demo_world :: "dispatch list \<Rightarrow> ride list \<Rightarrow> world" where
  "demo_world ds rs =
     \<lparr>dispatches = ds, rides = rs, users = [1 \<mapsto> demo_person ''sU''],
      captains = [11 \<mapsto> demo_person ''sA'', 12 \<mapsto> demo_person ''sB''],
      jobs = [], idem = Map.empty, emitted = [], now = 0\<rparr>"

definition demo_ride :: "ride_status \<Rightarrow> ride" where
  "demo_ride s =
     \<lparr>r_user = 1, r_captain = Some 11, r_pickup = ''12.97,77.59'',
      r_destination = ''12.93,77.61'', fare = 193, rstatus = s, otp = ''042917''\<rparr>"

definition demo_found :: "captain_hit list" where
  "demo_found =
     [\<lparr>h_id = 11, h_socketId = Some ''sA'', h_coords = Some ''12.95,77.60''\<rparr>,
      \<lparr>h_id = 12, h_socketId = Some ''sB'', h_coords = Some ''12.99,77.55''\<rparr>]"

text \<open>A \<^verbatim>\<open>/multi-eta\<close> that computes its answer from a routing table of 240 and 300
  seconds.\<close>

definition demo_eta :: "string list \<Rightarrow> int option \<Rightarrow> eta_payload reply" where
  "demo_eta sources boundSec = Reply (eta_compute boundSec [Some 240, Some 300])"

definition demo_start :: "int option \<Rightarrow> start_request" where
  "demo_start b =
     \<lparr>s_caller = Some 1, s_pickup = ''12.97,77.59'', s_destination = ''12.93,77.61'',
      s_vehicleType = Some ''car'', s_boundSec = b, s_ackSec = None,
      s_idem = Some ''key-1''\<rparr>"


section \<open>Properties\<close>

subsection \<open>\<^verbatim>\<open>GET /multi-eta\<close>: the bound and the best index\<close>

lemma min_upto_step:
  assumes "min_upto xs n b" "n < length xs"
  shows "min_upto xs (Suc n)
       (if xs ! n \<noteq> None \<and> (b < 0 \<or> (nat b < length xs \<and> num_of (xs ! n) < num_of (xs ! nat b)))
        then int n else b)"
proof (cases "xs ! n")
  case None
  with assms show ?thesis
    by (auto simp: min_upto_def less_Suc_eq split: if_splits)
next
  case (Some w)
  show ?thesis
  proof (cases "\<forall>j<n. xs ! j = None")
    case True
    with assms Some show ?thesis
      by (auto simp: min_upto_def less_Suc_eq)
  next
    case False
    with assms obtain v where b: "0 \<le> b" "nat b < n" "xs ! nat b = Some v"
      and lo: "\<forall>j<n. \<forall>u. xs ! j = Some u \<longrightarrow> v \<le> u"
      and ti: "\<forall>j<nat b. \<forall>u. xs ! j = Some u \<longrightarrow> v < u"
      by (auto simp: min_upto_def split: if_splits)
    show ?thesis
    proof (cases "w < v")
      case True
      with Some b lo assms(2) show ?thesis
        by (fastforce simp: min_upto_def less_Suc_eq)
    next
      case False
      with Some b lo ti assms(2) show ?thesis
        by (fastforce simp: min_upto_def less_Suc_eq)
    qed
  qed
qed

lemma reduce_best_inv:
  "min_upto xs (length pre) b \<Longrightarrow> xs = pre @ ds \<Longrightarrow>
   min_upto xs (length xs) (reduce_best xs ds (length pre) b)"
proof (induction ds arbitrary: pre b)
  case Nil
  then show ?case by simp
next
  case (Cons d ds)
  have n: "length pre < length xs" and d: "xs ! length pre = d"
    using Cons.prems(2) by simp_all
  from min_upto_step[OF Cons.prems(1) n]
  have "min_upto xs (length (pre @ [d]))
          (if d \<noteq> None \<and> (b < 0 \<or> (nat b < length xs \<and> num_of d < num_of (xs ! nat b)))
           then int (length pre) else b)"
    using d by simp
  from Cons.IH[OF this] Cons.prems(2) show ?case by simp
qed

lemma best_of_min_upto: "min_upto xs (length xs) (best_of xs)"
  using reduce_best_inv[of xs "[]" "-1" xs] by (simp add: best_of_def min_upto_def)

lemma min_upto_argmin:
  assumes m: "min_upto xs (length xs) b"
  shows "argmin_lowest xs b"
proof -
  have e: "list_all (\<lambda>d. d = None) xs \<longleftrightarrow> (\<forall>j<length xs. xs ! j = None)"
    by (simp add: list_all_length)
  show ?thesis
  proof (cases "\<forall>j<length xs. xs ! j = None")
    case True
    with m e show ?thesis by (simp add: min_upto_def argmin_lowest_def)
  next
    case False
    with m obtain v where b: "0 \<le> b" "nat b < length xs" "xs ! nat b = Some v"
      and lo: "\<forall>j<length xs. \<forall>u. xs ! j = Some u \<longrightarrow> v \<le> u"
      and ti: "\<forall>j<nat b. \<forall>u. xs ! j = Some u \<longrightarrow> v < u"
      by (auto simp: min_upto_def split: if_splits)
    have "list_all (\<lambda>j. case xs ! j of None \<Rightarrow> True | Some u \<Rightarrow> v \<le> u) [0..<length xs]"
      using lo by (auto simp: list_all_iff split: option.splits)
    moreover have "list_all (\<lambda>j. case xs ! j of None \<Rightarrow> True | Some u \<Rightarrow> v < u) [0..<nat b]"
      using ti by (auto simp: list_all_iff split: option.splits)
    ultimately show ?thesis
      using False e b by (simp add: argmin_lowest_def)
  qed
qed

lemma best_of_argmin: "argmin_lowest xs (best_of xs)"
  by (rule min_upto_argmin[OF best_of_min_upto])

lemma bound_filter_replace: "bound_filter boundSec ds = map (replace_over boundSec) ds"
  unfolding bound_filter_def replace_over_def
  by (cases boundSec) (auto split: option.splits)

lemma eta_compute_durations:
  "durations (eta_compute boundSec raw) = map (replace_over boundSec) raw"
  by (simp add: eta_compute_def Let_def bound_filter_replace)

lemma eta_compute_argmin:
  "argmin_lowest (durations (eta_compute boundSec raw)) (bestIndex (eta_compute boundSec raw))"
  by (simp add: eta_compute_def Let_def best_of_argmin)

lemma replace_over_within: "replace_over (Some b) d = Some v \<Longrightarrow> v \<le> b"
  by (auto simp: replace_over_def split: option.splits if_splits)

text \<open>
  C6, as the handler has it. In the mock branch (\<^verbatim>\<open>useMock()\<close> with no routing
  service) every duration is 300 and \<open>bestIndex\<close> is 0, whatever the bound: with a bound
  of 60 the entry 300 stays, where the bound asks for \<open>null\<close>.
\<close>

theorem multi_eta_mock_ignores_bound:
  "multi_eta \<lparr>resolvable = True, cached = None, use_mock = True, routing = None, matrix = Failed\<rparr>
     (Some [''12.95,77.60'']) (Some ''12.97,77.59'') (Some 60)
   = Resp 200 \<lparr>durations = [Some 300], bestIndex = 0\<rparr>
   \<and> replace_over (Some 60) (Some 300) = None"
  by (simp add: multi_eta_def replace_over_def)

text \<open>
  C6, amended: when the answer is computed from a provider's table (not the mock branch),
  or served from a cache entry that was computed for the same bound, the returned
  durations are the table with every entry above the bound replaced by \<open>null\<close> and the
  other entries as they were, no returned duration exceeds the bound, and \<open>bestIndex\<close>
  is the lowest index of the least returned duration, \<open>-1\<close> when all are \<open>null\<close>.
\<close>

theorem multi_eta_bound_argmin:
  assumes nomock: "\<not> (use_mock env \<and> routing env = None)"
      and hit: "case cached env of None \<Rightarrow> True | Some c \<Rightarrow> (\<exists>raw. c = eta_compute boundSec raw)"
      and ok: "multi_eta env sources destination boundSec = Resp code p"
  shows "(\<exists>raw. durations p = map (replace_over boundSec) raw \<and>
              (cached env = None \<longrightarrow> provider_table env = Some raw)) \<and>
         (\<forall>b v. boundSec = Some b \<and> Some v \<in> set (durations p) \<longrightarrow> v \<le> b) \<and>
         argmin_lowest (durations p) (bestIndex p)"
proof -
  have "\<exists>raw. p = eta_compute boundSec raw \<and> (cached env = None \<longrightarrow> provider_table env = Some raw)"
    using assms unfolding multi_eta_def provider_table_def
    by (auto split: option.splits reply.splits if_splits)
  then obtain raw where p: "p = eta_compute boundSec raw"
    and t: "cached env = None \<longrightarrow> provider_table env = Some raw"
    by auto
  have d: "durations p = map (replace_over boundSec) raw"
    unfolding p by (rule eta_compute_durations)
  have a: "argmin_lowest (durations p) (bestIndex p)"
    unfolding p by (rule eta_compute_argmin)
  have w: "\<forall>b v. boundSec = Some b \<and> Some v \<in> set (durations p) \<longrightarrow> v \<le> b"
    using d replace_over_within by (auto simp: in_set_conv_nth)
  have "\<exists>raw. durations p = map (replace_over boundSec) raw \<and>
              (cached env = None \<longrightarrow> provider_table env = Some raw)"
    using d t by (intro exI[of _ raw]) simp
  then show ?thesis using a w by (intro conjI)
qed

theorem multi_eta_bound_argmin_witness:
  "multi_eta \<lparr>resolvable = True, cached = None, use_mock = False,
              routing = Some (Reply [Some 240, None, Some 50, Some 50, Some 700]),
              matrix = Failed\<rparr>
     (Some [''a'', ''b'', ''c'', ''d'', ''e'']) (Some ''12.97,77.59'') (Some 60)
   = Resp 200 \<lparr>durations = [None, None, Some 50, Some 50, None], bestIndex = 2\<rparr>
   \<and> argmin_lowest [None, None, Some 50, Some 50, None] 2"
proof -
  let ?env = "\<lparr>resolvable = True, cached = None, use_mock = False,
               routing = Some (Reply [Some 240, None, Some 50, Some 50, Some 700]),
               matrix = Failed\<rparr>"
  let ?p = "\<lparr>durations = [None, None, Some 50, Some 50, None], bestIndex = 2\<rparr>"
  have run: "multi_eta ?env (Some [''a'', ''b'', ''c'', ''d'', ''e'']) (Some ''12.97,77.59'') (Some 60)
             = Resp 200 ?p"
    by (simp add: multi_eta_def eta_compute_def bound_filter_def best_of_def)
  have "argmin_lowest (durations ?p) (bestIndex ?p)"
    using multi_eta_bound_argmin[of ?env "Some 60" "Some [''a'', ''b'', ''c'', ''d'', ''e'']"
        "Some ''12.97,77.59''" 200 ?p] run
    by simp
  with run show ?thesis by simp
qed

subsection \<open>\<^verbatim>\<open>POST /ack-offer\<close>\<close>

lemma find_index_Some:
  "find_index P xs = Some i \<Longrightarrow> i < length xs \<and> P (xs ! i) \<and> (\<forall>j<i. \<not> P (xs ! j))"
proof (induction xs arbitrary: i)
  case Nil
  then show ?case by simp
next
  case (Cons x xs)
  show ?case
  proof (cases "P x")
    case True
    with Cons.prems show ?thesis by simp
  next
    case False
    with Cons.prems obtain k where k: "find_index P xs = Some k" "i = Suc k"
      by auto
    from Cons.IH[OF k(1)] False k(2) show ?thesis
      by (auto simp: less_Suc_eq_0_disj)
  qed
qed

text \<open>
  C1, as the handler has it. The update is not conditional on the candidate's status: a
  late accept for a candidate already marked \<^verbatim>\<open>timeout\<close> is answered \<^verbatim>\<open>200\<close> and
  overwrites the status with \<^verbatim>\<open>ack\<close>, where the claim has \<^verbatim>\<open>Gone\<close> and an
  unchanged dispatch.
\<close>

theorem ack_offer_late_ack_overwrites:
  "ack_offer 0 11 True [demo_dispatch [candA CTimeout, candB COffered]]
   = (Resp 200 (), [demo_dispatch [candA CAck, candB COffered]])"
  by (simp add: ack_offer_def find_by_id_def update_by_id_def set_cand_status_def
      demo_dispatch_def candA_def candB_def)

text \<open>
  C1, amended: \<^verbatim>\<open>POST /ack-offer\<close> answers \<^verbatim>\<open>404\<close> and changes nothing when the
  dispatch is unknown or not pending, or when the captain is not among its candidates;
  otherwise it answers \<^verbatim>\<open>200\<close> and sets the status of the first candidate with that
  captain id to \<^verbatim>\<open>ack\<close> (accepted) or \<^verbatim>\<open>rejected\<close> (not accepted), whatever the
  status was before. It never answers \<^verbatim>\<open>409\<close> (Conflict) or \<^verbatim>\<open>410\<close> (Gone).
\<close>

theorem ack_offer_unconditional:
  assumes "ack_offer did cap accepted ds = (r, ds')"
  shows "(case find_by_id ds did of
            None \<Rightarrow> status_code r = 404 \<and> ds' = ds
          | Some d \<Rightarrow>
              if dstatus d \<noteq> DPending then status_code r = 404 \<and> ds' = ds
              else
                (case find_index (\<lambda>c. captainId c = cap) (candidates d) of
                   None \<Rightarrow> status_code r = 404 \<and> ds' = ds
                 | Some idx \<Rightarrow>
                     status_code r = 200 \<and> idx < length (candidates d) \<and>
                     ds' = ds[did := d\<lparr>candidates := (candidates d)
                                 [idx := (candidates d ! idx)
                                           \<lparr>cstatus := (if accepted then CAck else CRejected)\<rparr>]\<rparr>]))
         \<and> status_code r \<noteq> 409 \<and> status_code r \<noteq> 410"
  using assms
  by (auto simp: ack_offer_def find_by_id_def update_by_id_def set_cand_status_def
      dest: find_index_Some split: option.splits if_splits)

theorem ack_offer_unconditional_witness:
  "ack_offer 0 12 False [demo_dispatch [candA CTimeout, candB CAck]]
     = (Resp 200 (), [demo_dispatch [candA CTimeout, candB CRejected]])
   \<and> status_code (Resp 200 () :: unit response) \<noteq> 409"
proof -
  have run: "ack_offer 0 12 False [demo_dispatch [candA CTimeout, candB CAck]]
     = (Resp 200 (), [demo_dispatch [candA CTimeout, candB CRejected]])"
    by (simp add: ack_offer_def find_by_id_def update_by_id_def set_cand_status_def
      demo_dispatch_def candA_def candB_def)
  from ack_offer_unconditional[OF run] have "status_code (Resp 200 () :: unit response) \<noteq> 409"
    by simp
  with run show ?thesis by simp
qed

subsection \<open>\<^verbatim>\<open>computeDispatch\<close> and \<^verbatim>\<open>POST /offers/start\<close>\<close>

lemma make_candidates_props:
  "length (make_candidates found ds) = length found \<and>
   map captainId (make_candidates found ds) = map h_id found \<and>
   map etaSec (make_candidates found ds) = map (eta_at ds) [0..<length found] \<and>
   list_all (\<lambda>c. cstatus c = CPending) (make_candidates found ds)"
  unfolding make_candidates_def
  by (auto simp: list_all_iff intro!: nth_equalityI)

text \<open>
  C5, as \<^verbatim>\<open>computeDispatch\<close> has it: the test for the fallback comes after the
  calibration step. With a calibration that answers 100 for a \<open>null\<close> duration, the
  bounded reply of \<^verbatim>\<open>/multi-eta\<close> has \<open>bestIndex = -1\<close>, and yet one request only is
  made: the calibrated durations and their best index are kept.
\<close>

theorem calibrated_bound_skips_requery:
  "demo_eta (List.map_filter h_coords demo_found) (Some 60)
     = Reply \<lparr>durations = [None, None], bestIndex = -1\<rparr>
   \<and> computeDispatch demo_found (Some (\<lambda>d. Some 100)) demo_eta (Some 60)
     = Reply \<lparr>plan_captains = demo_found, plan_durations = [Some 100, Some 100],
              plan_bestIndex = 0, eta_calls = [Some 60]\<rparr>"
  by (simp add: computeDispatch_def calibrate_def demo_found_def demo_eta_def eta_compute_def
      bound_filter_def best_of_def List.map_filter_def Let_def)

text \<open>
  C5, amended: a request with \<^verbatim>\<open>boundSec\<close> set, whose bounded ETA result has
  \<open>bestIndex = -1\<close> when \<^verbatim>\<open>computeDispatch\<close> tests it (after the calibration step,
  when one is configured; the reply of \<^verbatim>\<open>/multi-eta\<close> itself otherwise), makes a
  second, unbounded \<^verbatim>\<open>/multi-eta\<close> request and takes durations and \<open>bestIndex\<close> from
  its reply as they are, without calibration; the dispatch that \<^verbatim>\<open>POST /offers/start\<close>
  persists keeps the captains in their order, with these durations, and its
  \<^verbatim>\<open>currentIndex\<close> is \<open>max 0 bestIndex\<close>.
\<close>

theorem bounded_none_requeries_unbounded:
  assumes src: "List.map_filter h_coords found \<noteq> []"
      and first: "eta (List.map_filter h_coords found) (Some b) = Reply rb"
      and none: "snd (calibrate ml rb) = -1"
      and again: "eta (List.map_filter h_coords found) None = Reply ru"
      and req: "s_caller req = Some uid" "s_boundSec req = Some b"
  shows "computeDispatch found ml eta (Some b)
           = Reply \<lparr>plan_captains = found, plan_durations = durations ru,
                    plan_bestIndex = bestIndex ru, eta_calls = [Some b, None]\<rparr>
         \<and> dispatches (snd (offers_start queue_on found ml eta req w))
             = dispatches w @
               [\<lparr>d_user = uid, d_pickup = s_pickup req, d_destination = s_destination req,
                 vehicleType = (if s_vehicleType req = Some ''moto'' then Some ''motorcycle''
                                else s_vehicleType req),
                 candidates = make_candidates found (durations ru),
                 currentIndex = nat (max 0 (bestIndex ru)),
                 rideId = None, dstatus = DPending\<rparr>]
         \<and> fst (offers_start queue_on found ml eta req w)
             = Resp 201 \<lparr>dispatchId = length (dispatches w), candidate_count = length found,
                         reply_currentIndex = nat (max 0 (bestIndex ru)),
                         reply_ackSec = ack_or_default (s_ackSec req)\<rparr>
         \<and> map captainId (make_candidates found (durations ru)) = map h_id found
         \<and> map etaSec (make_candidates found (durations ru))
             = map (eta_at (durations ru)) [0..<length found]"
proof -
  have ne: "found \<noteq> []" using src by (auto simp: List.map_filter_def)
  have cd: "computeDispatch found ml eta (Some b)
           = Reply \<lparr>plan_captains = found, plan_durations = durations ru,
                    plan_bestIndex = bestIndex ru, eta_calls = [Some b, None]\<rparr>"
  proof (cases "calibrate ml rb")
    case (Pair ds bi)
    with none have "bi = -1" by simp
    with Pair src ne first again show ?thesis
      by (simp add: computeDispatch_def Let_def)
  qed
  show ?thesis
    using cd req ne make_candidates_props[of found "durations ru"]
    by (simp add: offers_start_def Let_def)
qed


theorem bounded_none_requeries_unbounded_witness:
  "computeDispatch demo_found None demo_eta (Some 60)
     = Reply \<lparr>plan_captains = demo_found, plan_durations = [Some 240, Some 300],
              plan_bestIndex = 0, eta_calls = [Some 60, None]\<rparr>
   \<and> demo_eta (List.map_filter h_coords demo_found) (Some 60)
     = Reply \<lparr>durations = [None, None], bestIndex = -1\<rparr>"
proof -
  have src: "List.map_filter h_coords demo_found \<noteq> []"
    by (simp add: demo_found_def List.map_filter_def)
  have first: "demo_eta (List.map_filter h_coords demo_found) (Some 60)
     = Reply \<lparr>durations = [None, None], bestIndex = -1\<rparr>"
    by (simp add: demo_eta_def eta_compute_def bound_filter_def best_of_def)
  have none: "snd (calibrate None \<lparr>durations = [None, None], bestIndex = -1\<rparr>) = -1"
    by (simp add: calibrate_def)
  have again: "demo_eta (List.map_filter h_coords demo_found) None
     = Reply \<lparr>durations = [Some 240, Some 300], bestIndex = 0\<rparr>"
    by (simp add: demo_eta_def eta_compute_def bound_filter_def best_of_def)
  have req: "s_caller (demo_start (Some 60)) = Some 1" "s_boundSec (demo_start (Some 60)) = Some 60"
    by (simp_all add: demo_start_def)
  have "computeDispatch demo_found None demo_eta (Some 60)
     = Reply \<lparr>plan_captains = demo_found, plan_durations = [Some 240, Some 300],
              plan_bestIndex = 0, eta_calls = [Some 60, None]\<rparr>"
    using bounded_none_requeries_unbounded[where found = demo_found and eta = demo_eta
        and b = 60 and ml = None and req = "demo_start (Some 60)" and uid = 1
        and rb = "\<lparr>durations = [None, None], bestIndex = -1\<rparr>"
        and ru = "\<lparr>durations = [Some 240, Some 300], bestIndex = 0\<rparr>"
        and queue_on = True and w = "demo_world [] []"]
      src first none again req
    by simp
  with first show ?thesis by simp
qed

text \<open>When the second request fails, so does \<^verbatim>\<open>computeDispatch\<close>.\<close>

lemma bounded_none_requery_fails:
  assumes src: "List.map_filter h_coords found \<noteq> []"
      and first: "eta (List.map_filter h_coords found) (Some b) = Reply rb"
      and none: "snd (calibrate ml rb) = -1"
      and again: "eta (List.map_filter h_coords found) None = Failed"
  shows "computeDispatch found ml eta (Some b) = Failed"
proof (cases "calibrate ml rb")
  case (Pair ds bi)
  have ne: "found \<noteq> []" using src by (auto simp: List.map_filter_def)
  from Pair none have "bi = -1" by simp
  with Pair src ne first again show ?thesis
    by (simp add: computeDispatch_def Let_def)
qed

subsection \<open>\<^verbatim>\<open>POST /confirm\<close> and \<^verbatim>\<open>GET /start-ride\<close>\<close>

lemma read_ride_otp:
  "read_ride True w k = Some v \<Longrightarrow> \<exists>r. find_by_id (rides w) k = Some r \<and> v_otp v = Some (otp r)"
  by (auto simp: read_ride_def)

lemma sanitize_otp: "v_otp (sanitize v) = v_otp v"
  by (simp add: sanitize_def)

lemma find_update_otp:
  "find_by_id (update_by_id rs k f) k = Some r \<Longrightarrow> (\<And>x. otp (f x) = otp x) \<Longrightarrow>
   \<exists>r0. find_by_id rs k = Some r0 \<and> otp r0 = otp r"
  by (auto simp: find_by_id_def update_by_id_def split: if_splits)

text \<open>
  C10: a \<^verbatim>\<open>200\<close> of \<^verbatim>\<open>POST /confirm\<close> or of \<^verbatim>\<open>GET /start-ride\<close> carries the
  ride with its \<^verbatim>\<open>otp\<close> field, equal to the stored one (both read with
  \<^verbatim>\<open>select('+otp')\<close> and remove only the passwords of user and captain), while a read
  that does not select the field returns no \<^verbatim>\<open>otp\<close>.
\<close>

theorem confirm_and_start_ride_return_otp:
  "(confirm caller k w = (Resp c out, w') \<longrightarrow>
      (\<exists>r. find_by_id (rides w) k = Some r \<and> v_otp out = Some (otp r)))
   \<and> (start_ride caller k given_otp w = (Resp c out, w') \<longrightarrow>
      (\<exists>r. find_by_id (rides w) k = Some r \<and> v_otp out = Some (otp r) \<and> otp r = given_otp))
   \<and> (\<forall>v. read_ride False w k = Some v \<longrightarrow> v_otp v = None)"
proof (intro conjI impI allI)
  assume a: "confirm caller k w = (Resp c out, w')"
  then obtain cid found where
    f: "read_ride True (w\<lparr>rides := update_by_id (rides w) k
                                 (\<lambda>r. r\<lparr>rstatus := RAccepted, r_captain := Some cid\<rparr>)\<rparr>) k = Some found"
    and o: "out = sanitize found"
    by (auto simp: confirm_def Let_def split: option.splits)
  from read_ride_otp[OF f] obtain r where
    r: "find_by_id (update_by_id (rides w) k (\<lambda>r. r\<lparr>rstatus := RAccepted, r_captain := Some cid\<rparr>)) k = Some r"
    and v: "v_otp found = Some (otp r)" by auto
  from find_update_otp[OF r] obtain r0 where "find_by_id (rides w) k = Some r0" "otp r0 = otp r"
    by auto
  with v o show "\<exists>r. find_by_id (rides w) k = Some r \<and> v_otp out = Some (otp r)"
    by (auto simp: sanitize_otp)
next
  assume a: "start_ride caller k given_otp w = (Resp c out, w')"
  then obtain found where f: "read_ride True w k = Some found" and o: "out = sanitize found"
    and g: "v_otp found = Some given_otp"
    by (auto simp: start_ride_def Let_def split: option.splits if_splits)
  from read_ride_otp[OF f] g o
  show "\<exists>r. find_by_id (rides w) k = Some r \<and> v_otp out = Some (otp r) \<and> otp r = given_otp"
    by (auto simp: sanitize_otp)
next
  fix v assume "read_ride False w k = Some v"
  then show "v_otp v = None" by (auto simp: read_ride_def)
qed

theorem confirm_and_start_ride_return_otp_witness:
  "v_otp (case fst (confirm (Some 11) 0 (demo_world [] [demo_ride RPending])) of Resp c out \<Rightarrow> out)
     = Some ''042917''
   \<and> v_otp (case fst (start_ride (Some 11) 0 ''042917'' (demo_world [] [demo_ride RAccepted])) of Resp c out \<Rightarrow> out)
     = Some ''042917''"
proof -
  obtain c1 out1 w1 where r1: "confirm (Some 11) 0 (demo_world [] [demo_ride RPending]) = (Resp c1 out1, w1)"
    by (simp add: confirm_def Let_def demo_world_def demo_ride_def read_ride_def find_by_id_def
        update_by_id_def sanitize_def drop_password_def demo_person_def)
  obtain c2 out2 w2 where r2: "start_ride (Some 11) 0 ''042917'' (demo_world [] [demo_ride RAccepted]) = (Resp c2 out2, w2)"
    by (simp add: start_ride_def Let_def demo_world_def demo_ride_def read_ride_def find_by_id_def
        update_by_id_def sanitize_def drop_password_def demo_person_def)
  have "v_otp out1 = Some ''042917''"
    using confirm_and_start_ride_return_otp[of "Some 11" 0 "demo_world [] [demo_ride RPending]" c1 out1 w1] r1
    by (auto simp: demo_world_def demo_ride_def find_by_id_def)
  moreover have "v_otp out2 = Some ''042917''"
    using confirm_and_start_ride_return_otp[of "Some 11" 0 "demo_world [] [demo_ride RAccepted]" c2 out2 w2 "''042917''"] r2
    by (auto simp: demo_world_def demo_ride_def find_by_id_def)
  ultimately show ?thesis using r1 r2 by simp
qed

subsection \<open>Idempotency: \<^verbatim>\<open>POST /offers/start\<close> and \<^verbatim>\<open>POST /create\<close>\<close>





subsection \<open>The offer job: what its steps keep\<close>

lemma ack_offer_length: "length (snd (ack_offer did cap a ds)) = length ds"
  by (auto simp: ack_offer_def find_by_id_def update_by_id_def split: option.splits)

lemma apply_write_length: "length (apply_write x ds) = length ds"
  by (cases x) (auto simp: ack_offer_length update_by_id_def)

lemma set_cand_status_length:
  "length (candidates (set_cand_status i s d)) = length (candidates d)"
  by (simp add: set_cand_status_def)

lemma apply_write_candidates:
  "k < length ds \<Longrightarrow>
   length (candidates (apply_write x ds ! k)) = length (candidates (ds ! k))"
proof (cases x)
  case (AckOffer did cap a)
  assume k: "k < length ds"
  show ?thesis
  proof (cases "fst (ack_offer did cap a ds)")
    case (Fail c m)
    then have "snd (ack_offer did cap a ds) = ds"
      by (auto simp: ack_offer_def split: option.splits if_splits)
    with AckOffer show ?thesis by simp
  next
    case (Resp c b)
    then obtain idx where "snd (ack_offer did cap a ds)
        = update_by_id ds did (set_cand_status idx (if a then CAck else CRejected))"
      by (auto simp: ack_offer_def split: option.splits if_splits)
    with AckOffer k show ?thesis
      by (simp add: update_by_id_def nth_list_update set_cand_status_length)
  qed
next
  case (AckUpdate did idx a)
  assume "k < length ds"
  with AckUpdate show ?thesis
    by (simp add: update_by_id_def nth_list_update set_cand_status_length)
next
  case (SetStatus did st)
  assume "k < length ds"
  with SetStatus show ?thesis
    by (simp add: update_by_id_def nth_list_update)
qed

lemma fold_apply_write_candidates:
  "k < length ds \<Longrightarrow>
   length (candidates (fold apply_write xs ds ! k)) = length (candidates (ds ! k))"
  by (induction xs arbitrary: ds) (auto simp: apply_write_candidates apply_write_length)

lemma fold_apply_write_length: "length (fold apply_write xs ds) = length ds"
  by (induction xs arbitrary: ds) (auto simp: apply_write_length)

lemma sleep_frame:
  "rides (sleep writes w) = rides w \<and> emitted (sleep writes w) = emitted w \<and>
   length (dispatches (sleep writes w)) = length (dispatches w) \<and>
   now (sleep writes w) = now w + 1000"
  by (simp add: sleep_def fold_apply_write_length)

lemma wait_ack_frame:
  "wait_ack writes did i ackSec started w = (r, w') \<Longrightarrow>
   rides w' = rides w \<and> emitted w' = emitted w \<and>
   length (dispatches w') = length (dispatches w) \<and> now w \<le> now w'"
proof (induction writes did i ackSec started w rule: wait_ack.induct)
  case (1 writes did i ackSec started w)
  show ?case
  proof (cases "now w - started < ackSec * 1000")
    case False
    with "1.prems" show ?thesis by (simp add: wait_ack.simps)
  next
    case True
    show ?thesis
    proof (cases "find_by_id (dispatches w) did")
      case None
      with True "1.prems" show ?thesis by (simp add: wait_ack.simps)
    next
      case (Some cur)
      show ?thesis
      proof (cases "dstatus cur \<noteq> DPending \<or> (i < length (candidates cur) \<and> cstatus (candidates cur ! i) = CAck)")
        case stop: True
        with True Some "1.prems" show ?thesis by (auto simp: wait_ack.simps split: if_splits)
      next
        case go: False
        with True Some "1.prems"
        have "wait_ack writes did i ackSec started (sleep writes w) = (r, w')"
          by (auto simp: wait_ack.simps split: if_splits)
        from "1.IH"[OF True Some _ _ this] go sleep_frame[of writes w]
        show ?thesis by auto
      qed
    qed
  qed
qed


lemma set_cand_status_unassigned:
  "s \<noteq> CAssigned \<Longrightarrow> list_all (\<lambda>c. cstatus c \<noteq> CAssigned) (candidates d) \<Longrightarrow>
   list_all (\<lambda>c. cstatus c \<noteq> CAssigned) (candidates (set_cand_status i s d))"
  by (auto simp: set_cand_status_def list_all_length nth_list_update)

lemma update_by_id_unassigned:
  assumes "unassigned did ds"
      and "\<And>d. list_all (\<lambda>c. cstatus c \<noteq> CAssigned) (candidates d) \<Longrightarrow>
                list_all (\<lambda>c. cstatus c \<noteq> CAssigned) (candidates (f d))"
  shows "unassigned did (update_by_id ds k f)"
  using assms
  by (auto simp: unassigned_def find_by_id_def update_by_id_def nth_list_update split: if_splits)

lemma apply_write_unassigned: "unassigned did ds \<Longrightarrow> unassigned did (apply_write x ds)"
proof (cases x)
  case (AckOffer k cap a)
  assume u: "unassigned did ds"
  show ?thesis
  proof (cases "fst (ack_offer k cap a ds)")
    case (Fail c m)
    then have "snd (ack_offer k cap a ds) = ds"
      by (auto simp: ack_offer_def split: option.splits if_splits)
    with u AckOffer show ?thesis by simp
  next
    case (Resp c b)
    then obtain idx where "snd (ack_offer k cap a ds)
        = update_by_id ds k (set_cand_status idx (if a then CAck else CRejected))"
      by (auto simp: ack_offer_def split: option.splits if_splits)
    with AckOffer update_by_id_unassigned[OF u, of "set_cand_status idx (if a then CAck else CRejected)" k]
      set_cand_status_unassigned[of "if a then CAck else CRejected"]
    show ?thesis by simp
  qed
next
  case (AckUpdate k idx a)
  assume u: "unassigned did ds"
  from AckUpdate update_by_id_unassigned[OF u, of "set_cand_status idx (if a then CAck else CRejected)" k]
    set_cand_status_unassigned[of "if a then CAck else CRejected"]
  show ?thesis by simp
next
  case (SetStatus k s)
  assume u: "unassigned did ds"
  from update_by_id_unassigned[OF u, of "\<lambda>d. d\<lparr>dstatus := s\<rparr>" k] SetStatus
  show ?thesis by simp
qed

lemma fold_apply_write_unassigned:
  "unassigned did ds \<Longrightarrow> unassigned did (fold apply_write xs ds)"
  by (induction xs arbitrary: ds) (auto simp: apply_write_unassigned)

lemma sleep_unassigned:
  "unassigned did (dispatches w) \<Longrightarrow> unassigned did (dispatches (sleep writes w))"
  by (simp add: sleep_def fold_apply_write_unassigned)

lemma wait_ack_unassigned:
  "wait_ack writes did i ackSec started w = (r, w') \<Longrightarrow> unassigned k (dispatches w) \<Longrightarrow>
   unassigned k (dispatches w')"
proof (induction writes did i ackSec started w rule: wait_ack.induct)
  case (1 writes did i ackSec started w)
  show ?case
  proof (cases "now w - started < ackSec * 1000")
    case False
    with "1.prems" show ?thesis by (simp add: wait_ack.simps)
  next
    case True
    show ?thesis
    proof (cases "find_by_id (dispatches w) did")
      case None
      with True "1.prems" show ?thesis by (simp add: wait_ack.simps)
    next
      case (Some cur)
      show ?thesis
      proof (cases "dstatus cur \<noteq> DPending \<or> (i < length (candidates cur) \<and> cstatus (candidates cur ! i) = CAck)")
        case stop: True
        with True Some "1.prems" show ?thesis by (auto simp: wait_ack.simps split: if_splits)
      next
        case go: False
        with True Some "1.prems"
        have "wait_ack writes did i ackSec started (sleep writes w) = (r, w')"
          by (auto simp: wait_ack.simps split: if_splits)
        from "1.IH"[OF True Some _ _ this sleep_unassigned[OF "1.prems"(2)]] go
        show ?thesis by auto
      qed
    qed
  qed
qed

lemma mark_timeout_frame:
  "rides (mark_timeout did i w) = rides w \<and> emitted (mark_timeout did i w) = emitted w \<and>
   length (dispatches (mark_timeout did i w)) = length (dispatches w) \<and>
   now (mark_timeout did i w) = now w"
  by (simp add: mark_timeout_def update_by_id_def)

lemma mark_timeout_unassigned:
  "unassigned k (dispatches w) \<Longrightarrow> unassigned k (dispatches (mark_timeout did i w))"
  unfolding mark_timeout_def
  using update_by_id_unassigned[of k "dispatches w" "\<lambda>d. set_cand_status i CTimeout (d\<lparr>currentIndex := i + 1\<rparr>)" did]
    set_cand_status_unassigned[of CTimeout]
  by simp

lemma emit_frame:
  "rides (emit sock ev dat w) = rides w \<and> dispatches (emit sock ev dat w) = dispatches w \<and>
   emitted (emit sock ev dat w) = emitted w @ [\<lparr>to_socket = sock, event = ev, payload = dat, sent_at = now w\<rparr>] \<and>
   now (emit sock ev dat w) = now w \<and> users (emit sock ev dat w) = users w"
  by (simp add: emit_def)

text \<open>One turn of the loop, by the outcome of the wait.\<close>

lemma offer_loop_turn:
  assumes "i < length (candidates d)"
  shows "offer_loop writes fares new_otp did d ackSec i w =
     (case wait_ack writes did i ackSec (now w)
             (emit (socketId (candidates d ! i)) ''ride-offer''
                (OfferData did (captainId (candidates d ! i)) (d_pickup d) (d_destination d)
                   (etaSec (candidates d ! i))) w) of
        (Stopped, w2) \<Rightarrow> (JobStopped, w2)
      | (Acked, w2) \<Rightarrow> commit fares new_otp did i w2
      | (Elapsed, w2) \<Rightarrow>
          offer_loop writes fares new_otp did d ackSec (i + 1) (mark_timeout did i w2))"
  using assms by (subst offer_loop.simps) (simp add: Let_def emit_frame)

lemma offer_loop_done:
  "\<not> i < length (candidates d) \<Longrightarrow>
   offer_loop writes fares new_otp did d ackSec i w = (Exhausted, no_candidate_accepted did w)"
  by (subst offer_loop.simps) simp


lemma commit_result:
  "commit fares new_otp did i w = (r, w') \<Longrightarrow> r = JobFailed \<or> (\<exists>rid. r = Assigned rid)"
  by (auto simp: commit_def Let_def split: option.splits if_splits)

lemma no_candidate_accepted_post:
  "rides (no_candidate_accepted did w) = rides w \<and>
   emitted (no_candidate_accepted did w) = emitted w \<and>
   length (dispatches (no_candidate_accepted did w)) = length (dispatches w) \<and>
   (did < length (dispatches w) \<longrightarrow>
      dstatus (dispatches (no_candidate_accepted did w) ! did) = DCancelled)"
  by (simp add: no_candidate_accepted_def update_by_id_def)

lemma offer_loop_exhausted:
  "offer_loop writes fares new_otp did d ackSec i w = (Exhausted, w') \<Longrightarrow>
   rides w' = rides w \<and> length (dispatches w') = length (dispatches w) \<and>
   (did < length (dispatches w) \<longrightarrow> dstatus (dispatches w' ! did) = DCancelled) \<and>
   (\<exists>es. emitted w' = emitted w @ es \<and> list_all (\<lambda>e. event e = ''ride-offer'') es)"
proof (induction "length (candidates d) - i" arbitrary: i w)
  case 0
  then have "\<not> i < length (candidates d)" by simp
  with "0.prems" offer_loop_done[of i d writes fares new_otp did ackSec w]
    no_candidate_accepted_post[of did w]
  show ?case by auto
next
  case (Suc n)
  then have lt: "i < length (candidates d)" by simp
  let ?w1 = "emit (socketId (candidates d ! i)) ''ride-offer''
                (OfferData did (captainId (candidates d ! i)) (d_pickup d) (d_destination d)
                   (etaSec (candidates d ! i))) w"
  obtain r w2 where wa: "wait_ack writes did i ackSec (now w) ?w1 = (r, w2)"
    by (cases "wait_ack writes did i ackSec (now w) ?w1")
  from Suc.prems wa offer_loop_turn[OF lt, of writes fares new_otp did ackSec w] commit_result
  have el: "r = Elapsed"
    and rec: "offer_loop writes fares new_otp did d ackSec (i + 1) (mark_timeout did i w2) = (Exhausted, w')"
    by (cases r; fastforce)+
  have "n = length (candidates d) - (i + 1)" using Suc.hyps(2) by simp
  from Suc.hyps(1)[OF this rec] obtain es where
    a: "rides w' = rides (mark_timeout did i w2)"
       "length (dispatches w') = length (dispatches (mark_timeout did i w2))"
       "did < length (dispatches (mark_timeout did i w2)) \<longrightarrow> dstatus (dispatches w' ! did) = DCancelled"
       "emitted w' = emitted (mark_timeout did i w2) @ es" "list_all (\<lambda>e. event e = ''ride-offer'') es"
    by auto
  from wait_ack_frame[OF wa] mark_timeout_frame[of did i w2] emit_frame[of "socketId (candidates d ! i)" "''ride-offer''" _ w] a
  show ?case by (auto simp: emit_def)
qed


text \<open>
  C2, amended: when the loop of a job runs out of candidates, the job sets the status of
  the dispatch to \<^verbatim>\<open>cancelled\<close> (the schema has no \<^verbatim>\<open>exhausted\<close>), the only events
  it has sent are the \<^verbatim>\<open>ride-offer\<close>s of its rounds (there is no
  \<^verbatim>\<open>dispatch-failed\<close>), and it has created no ride.
\<close>

theorem exhausted_job_cancels_silently:
  assumes "offer_job writes fares new_otp job jobAckSec envAckSec w = (Exhausted, w')"
  shows "(\<exists>did d'. job = Some did \<and> find_by_id (dispatches w') did = Some d' \<and>
                   dstatus d' = DCancelled) \<and>
         rides w' = rides w \<and>
         (\<exists>es. emitted w' = emitted w @ es \<and> list_all (\<lambda>e. event e = ''ride-offer'') es)"
proof -
  from assms obtain did d where j: "job = Some did"
    and d: "find_by_id (dispatches w) did = Some d"
    and l: "offer_loop writes fares new_otp did d (ack_window jobAckSec envAckSec) (currentIndex d) w = (Exhausted, w')"
    by (auto simp: offer_job_def split: option.splits if_splits)
  from d have "did < length (dispatches w)"
    by (simp add: find_by_id_def split: if_splits)
  with offer_loop_exhausted[OF l] j show ?thesis
    by (auto simp: find_by_id_def)
qed

text \<open>
  C2, as the worker has it: one candidate who does not answer within 5 seconds. The
  dispatch ends \<^verbatim>\<open>cancelled\<close>, not \<^verbatim>\<open>exhausted\<close>, and the one event sent is the
  \<^verbatim>\<open>ride-offer\<close>.
\<close>

theorem exhausted_job_no_failed_event:
  "fst (offer_job (\<lambda>t. []) (\<lambda>p q. Fail 500 ''down'') ''042917'' (Some 0) (Some 5) None
         (demo_world [demo_dispatch [candA CPending]] [])) = Exhausted
   \<and> map dstatus (dispatches (snd (offer_job (\<lambda>t. []) (\<lambda>p q. Fail 500 ''down'') ''042917'' (Some 0) (Some 5) None
         (demo_world [demo_dispatch [candA CPending]] [])))) = [DCancelled]
   \<and> map event (emitted (snd (offer_job (\<lambda>t. []) (\<lambda>p q. Fail 500 ''down'') ''042917'' (Some 0) (Some 5) None
         (demo_world [demo_dispatch [candA CPending]] [])))) = [''ride-offer'']"
  by (simp add: offer_job_def ack_window_def offer_loop.simps wait_ack.simps demo_world_def demo_dispatch_def
      candA_def find_by_id_def emit_def sleep_def mark_timeout_def update_by_id_def
      set_cand_status_def no_candidate_accepted_def)

theorem exhausted_job_cancels_silently_witness:
  "rides (snd (offer_job (\<lambda>t. []) (\<lambda>p q. Fail 500 ''down'') ''042917'' (Some 0) (Some 5) None
         (demo_world [demo_dispatch [candA CPending]] []))) = []
   \<and> fst (offer_job (\<lambda>t. []) (\<lambda>p q. Fail 500 ''down'') ''042917'' (Some 0) (Some 5) None
         (demo_world [demo_dispatch [candA CPending]] [])) = Exhausted"
proof -
  obtain w' where run: "offer_job (\<lambda>t. []) (\<lambda>p q. Fail 500 ''down'') ''042917'' (Some 0) (Some 5) None
         (demo_world [demo_dispatch [candA CPending]] []) = (Exhausted, w')"
    by (simp add: offer_job_def ack_window_def offer_loop.simps wait_ack.simps demo_world_def demo_dispatch_def
      candA_def find_by_id_def emit_def sleep_def mark_timeout_def update_by_id_def
      set_cand_status_def no_candidate_accepted_def)
  from exhausted_job_cancels_silently[OF run] have "rides w' = []"
    by (simp add: demo_world_def)
  with run show ?thesis by simp
qed

subsection \<open>The offer job: assignment\<close>

lemma commit_post:
  assumes c: "commit fares new_otp did i w = (Assigned rid, w')"
      and u: "unassigned did (dispatches w)"
  shows "\<exists>d' r. find_by_id (dispatches w') did = Some d' \<and> dstatus d' = DAssigned \<and>
           currentIndex d' = i \<and> i < length (candidates d') \<and>
           (\<forall>j<length (candidates d'). (cstatus (candidates d' ! j) = CAssigned) = (j = i)) \<and>
           rideId d' = Some rid \<and> find_by_id (rides w') rid = Some r \<and> rstatus r = RAccepted \<and>
           rides w' = rides w @ [r]"
proof -
  from c obtain cur where cur: "find_by_id (dispatches w) did = Some cur"
    and i: "i < length (candidates cur)"
    by (auto simp: commit_def Let_def split: option.splits if_splits)
  from cur have k: "did < length (dispatches w)" "dispatches w ! did = cur"
    by (auto simp: find_by_id_def split: if_splits)
  from u cur have na: "\<forall>j<length (candidates cur). cstatus (candidates cur ! j) \<noteq> CAssigned"
    by (simp add: unassigned_def list_all_length)
  from c cur i k have rid: "rid = length (rides w)"
    and rs: "rides w' = rides w @ [\<lparr>r_user = d_user cur, r_captain = Some (captainId (candidates cur ! i)),
                        r_pickup = d_pickup cur, r_destination = d_destination cur,
                        fare = worker_fare (fares (d_pickup cur) (d_destination cur)) (vehicleType cur),
                        rstatus = RAccepted, otp = new_otp\<rparr>]"
    and ds: "dispatches w' = (dispatches w)[did := set_cand_status i CAssigned
                 (cur\<lparr>dstatus := DAssigned, currentIndex := i, rideId := Some (length (rides w))\<rparr>)]"
    by (auto simp: commit_def Let_def emit_def update_by_id_def split: option.splits if_splits)
  let ?d = "set_cand_status i CAssigned
                 (cur\<lparr>dstatus := DAssigned, currentIndex := i, rideId := Some (length (rides w))\<rparr>)"
  have f: "find_by_id (dispatches w') did = Some ?d"
    using ds k by (simp add: find_by_id_def)
  have p: "dstatus ?d = DAssigned \<and> currentIndex ?d = i \<and> i < length (candidates ?d) \<and>
           rideId ?d = Some rid"
    using i rid by (simp add: set_cand_status_def)
  have q: "\<forall>j<length (candidates ?d). (cstatus (candidates ?d ! j) = CAssigned) = (j = i)"
    using i na by (auto simp: set_cand_status_def nth_list_update)
  have "find_by_id (rides w') rid = Some (last (rides w')) \<and> rstatus (last (rides w')) = RAccepted
        \<and> rides w' = rides w @ [last (rides w')]"
    using rs rid by (simp add: find_by_id_def)
  with f p q show ?thesis by blast
qed

lemma offer_loop_assigned:
  "offer_loop writes fares new_otp did d ackSec i w = (Assigned rid, w') \<Longrightarrow>
   unassigned did (dispatches w) \<Longrightarrow>
   \<exists>d' r k. find_by_id (dispatches w') did = Some d' \<and> dstatus d' = DAssigned \<and>
           currentIndex d' = k \<and> k < length (candidates d') \<and>
           (\<forall>j<length (candidates d'). (cstatus (candidates d' ! j) = CAssigned) = (j = k)) \<and>
           rideId d' = Some rid \<and> find_by_id (rides w') rid = Some r \<and> rstatus r = RAccepted \<and>
           rides w' = rides w @ [r]"
proof (induction "length (candidates d) - i" arbitrary: i w)
  case 0
  then have "\<not> i < length (candidates d)" by simp
  with "0.prems" offer_loop_done[of i d writes fares new_otp did ackSec w]
  show ?case by simp
next
  case (Suc n)
  then have lt: "i < length (candidates d)" by simp
  let ?w1 = "emit (socketId (candidates d ! i)) ''ride-offer''
                (OfferData did (captainId (candidates d ! i)) (d_pickup d) (d_destination d)
                   (etaSec (candidates d ! i))) w"
  obtain r w2 where wa: "wait_ack writes did i ackSec (now w) ?w1 = (r, w2)"
    by (cases "wait_ack writes did i ackSec (now w) ?w1")
  have u1: "unassigned did (dispatches ?w1)" using Suc.prems(2) by (simp add: emit_def)
  note u2 = wait_ack_unassigned[OF wa u1]
  note fr = wait_ack_frame[OF wa]
  show ?case
  proof (cases r)
    case Stopped
    with Suc.prems(1) wa offer_loop_turn[OF lt, of writes fares new_otp did ackSec w]
    show ?thesis by simp
  next
    case Acked
    with Suc.prems(1) wa offer_loop_turn[OF lt, of writes fares new_otp did ackSec w]
    have "commit fares new_otp did i w2 = (Assigned rid, w')" by simp
    from commit_post[OF this u2] fr show ?thesis by (auto simp: emit_def)
  next
    case Elapsed
    with Suc.prems(1) wa offer_loop_turn[OF lt, of writes fares new_otp did ackSec w]
    have rec: "offer_loop writes fares new_otp did d ackSec (i + 1) (mark_timeout did i w2) = (Assigned rid, w')"
      by simp
    have "n = length (candidates d) - (i + 1)" using Suc.hyps(2) by simp
    from Suc.hyps(1)[OF this rec mark_timeout_unassigned[OF u2]] fr mark_timeout_frame[of did i w2]
    show ?thesis by (auto simp: emit_def)
  qed
qed

text \<open>A dispatch that \<^verbatim>\<open>POST /offers/start\<close> has created has no candidate marked
  \<^verbatim>\<open>assigned\<close>.\<close>

lemma offers_start_unassigned:
  assumes "offers_start queue_on found ml eta req w = (Resp c out, w')"
  shows "unassigned (dispatchId out) (dispatches w')"
proof -
  from assms obtain uid plan where p: "s_caller req = Some uid"
      "computeDispatch found ml eta (s_boundSec req) = Reply plan" "plan_captains plan \<noteq> []"
    by (auto simp: offers_start_def Let_def split: option.splits reply.splits if_splits)
  let ?cands = "make_candidates (plan_captains plan) (plan_durations plan)"
  from assms p have d: "dispatchId out = length (dispatches w)"
    "length (dispatches w') = Suc (length (dispatches w))"
    "candidates (dispatches w' ! length (dispatches w)) = ?cands"
    by (auto simp: offers_start_def Let_def split: if_splits)
  from make_candidates_props[of "plan_captains plan" "plan_durations plan"]
  have "list_all (\<lambda>c. cstatus c \<noteq> CAssigned) ?cands"
    by (auto simp: list_all_iff)
  with d show ?thesis by (simp add: unassigned_def find_by_id_def)
qed

text \<open>
  C3, amended: at the moment a job commits an assignment, on a dispatch in which no
  candidate was marked \<^verbatim>\<open>assigned\<close> before (as in every dispatch that
  \<^verbatim>\<open>/offers/start\<close> creates), the dispatch has status \<^verbatim>\<open>assigned\<close>, the candidates
  marked \<^verbatim>\<open>assigned\<close> are exactly the one at \<^verbatim>\<open>currentIndex\<close>, and \<^verbatim>\<open>rideId\<close> is the
  id of a ride that exists with status \<^verbatim>\<open>accepted\<close>: the one ride the job has created.
  This holds whatever \<^verbatim>\<open>/ack-offer\<close> reads and updates and whatever status writes land
  during the waits of the job.
\<close>

theorem assigned_job_one_candidate_and_ride:
  assumes run: "offer_job writes fares new_otp job jobAckSec envAckSec w = (Assigned rid, w')"
      and fresh: "\<forall>did. job = Some did \<longrightarrow> unassigned did (dispatches w)"
  shows "\<exists>did d' r. job = Some did \<and> find_by_id (dispatches w') did = Some d' \<and>
           dstatus d' = DAssigned \<and> currentIndex d' < length (candidates d') \<and>
           (\<forall>j<length (candidates d').
               (cstatus (candidates d' ! j) = CAssigned) = (j = currentIndex d')) \<and>
           rideId d' = Some rid \<and> find_by_id (rides w') rid = Some r \<and> rstatus r = RAccepted \<and>
           rides w' = rides w @ [r]"
proof -
  from run obtain did d where j: "job = Some did"
    and l: "offer_loop writes fares new_otp did d (ack_window jobAckSec envAckSec) (currentIndex d) w = (Assigned rid, w')"
    by (auto simp: offer_job_def split: option.splits if_splits)
  from fresh j have "unassigned did (dispatches w)" by simp
  from offer_loop_assigned[OF l this] j show ?thesis by blast
qed

theorem assigned_job_one_candidate_and_ride_witness:
  "fst (offer_job (\<lambda>t. if t = 2000 then [AckOffer 0 11 True] else []) (\<lambda>p q. Fail 500 ''down'')
          ''042917'' (Some 0) None None (demo_world [demo_dispatch [candA CPending, candB CPending]] []))
     = Assigned 0
   \<and> map rstatus (rides (snd (offer_job (\<lambda>t. if t = 2000 then [AckOffer 0 11 True] else [])
          (\<lambda>p q. Fail 500 ''down'') ''042917'' (Some 0) None None
          (demo_world [demo_dispatch [candA CPending, candB CPending]] []))))
     = [RAccepted]"
proof -
  let ?w = "demo_world [demo_dispatch [candA CPending, candB CPending]] []"
  obtain w' where run: "offer_job (\<lambda>t. if t = 2000 then [AckOffer 0 11 True] else [])
          (\<lambda>p q. Fail 500 ''down'') ''042917'' (Some 0) None None ?w = (Assigned 0, w')"
    by (simp add: offer_job_def ack_window_def offer_loop.simps wait_ack.simps demo_world_def demo_dispatch_def
      candA_def candB_def find_by_id_def emit_def sleep_def update_by_id_def
      set_cand_status_def ack_offer_def commit_def worker_fare_def demo_person_def Let_def)
  have fresh: "\<forall>did. Some (0::nat) = Some did \<longrightarrow> unassigned did (dispatches ?w)"
    by (simp add: unassigned_def demo_world_def demo_dispatch_def candA_def candB_def find_by_id_def)
  from assigned_job_one_candidate_and_ride[OF run fresh]
  obtain r where "rstatus r = RAccepted" "rides w' = rides ?w @ [r]" by auto
  with run show ?thesis by (simp add: demo_world_def)
qed

text \<open>
  C3, as the services have it: it is not an invariant of every assigned dispatch. After
  the commit the captain starts the ride with the OTP; the dispatch stays \<^verbatim>\<open>assigned\<close>
  with the same \<^verbatim>\<open>rideId\<close>, and the ride it refers to is \<^verbatim>\<open>ongoing\<close>, not
  \<^verbatim>\<open>accepted\<close>.
\<close>

theorem assigned_dispatch_ride_started:
  "map (\<lambda>d. (dstatus d, rideId d))
     (dispatches (snd (start_ride (Some 11) 0 ''042917''
        (snd (offer_job (\<lambda>t. if t = 2000 then [AckOffer 0 11 True] else [])
               (\<lambda>p q. Fail 500 ''down'') ''042917'' (Some 0) None None
               (demo_world [demo_dispatch [candA CPending, candB CPending]] []))))))
     = [(DAssigned, Some 0)]
   \<and> map rstatus
     (rides (snd (start_ride (Some 11) 0 ''042917''
        (snd (offer_job (\<lambda>t. if t = 2000 then [AckOffer 0 11 True] else [])
               (\<lambda>p q. Fail 500 ''down'') ''042917'' (Some 0) None None
               (demo_world [demo_dispatch [candA CPending, candB CPending]] []))))))
     = [ROngoing]"
  by (simp add: offer_job_def ack_window_def offer_loop.simps wait_ack.simps demo_world_def
      demo_dispatch_def candA_def candB_def find_by_id_def emit_def sleep_def update_by_id_def
      set_cand_status_def ack_offer_def commit_def worker_fare_def demo_person_def Let_def
      start_ride_def read_ride_def sanitize_def drop_password_def)


subsection \<open>The fare of a new ride\<close>










subsection \<open>The offer job: rejection, timeout and cancellation\<close>

lemma poll_state_now: "now (poll_state writes w k) = now w + 1000 * k"
  by (induction k) (simp_all add: poll_state_def sleep_def)

lemma poll_state_length:
  "length (dispatches (poll_state writes w k)) = length (dispatches w)"
  by (induction k) (simp_all add: poll_state_def sleep_def fold_apply_write_length)

lemma poll_state_candidates:
  "did < length (dispatches w) \<Longrightarrow>
   length (candidates (dispatches (poll_state writes w k) ! did))
     = length (candidates (dispatches w ! did))"
proof (induction k)
  case 0
  show ?case by (simp add: poll_state_def)
next
  case (Suc k)
  have "did < length (dispatches (poll_state writes w k))"
    using Suc.prems by (simp add: poll_state_length)
  from fold_apply_write_candidates[OF this] Suc show ?case
    by (simp add: poll_state_def sleep_def)
qed

text \<open>What the polls read depends on the clock and the dispatches alone.\<close>

lemma poll_state_cong:
  "dispatches v = dispatches w \<Longrightarrow> now v = now w \<Longrightarrow>
   dispatches (poll_state writes v k) = dispatches (poll_state writes w k) \<and>
   now (poll_state writes v k) = now (poll_state writes w k)"
  by (induction k) (simp_all add: poll_state_def sleep_def)

lemma poll_state_shift:
  "poll_state writes (sleep writes w) k = poll_state writes w (Suc k)"
  by (simp add: poll_state_def funpow_swap1)

lemma wait_ack_polls:
  assumes "\<forall>j<ackSec - k. waiting did i (dispatches (poll_state writes w j))"
      and "now w = started + 1000 * k" "k \<le> ackSec"
  shows "wait_ack writes did i ackSec started w = (Elapsed, poll_state writes w (ackSec - k))"
  using assms
proof (induction "ackSec - k" arbitrary: k w)
  case 0
  then have "\<not> now w - started < ackSec * 1000" by simp
  then have "wait_ack writes did i ackSec started w = (Elapsed, w)"
    by (simp add: wait_ack.simps)
  with 0 show ?case by (simp add: poll_state_def)
next
  case (Suc n)
  then have lt: "now w - started < ackSec * 1000" by simp
  from Suc.prems(1) Suc.hyps(2) have "waiting did i (dispatches (poll_state writes w 0))"
    by simp
  then obtain cur where cur: "find_by_id (dispatches w) did = Some cur"
    "dstatus cur = DPending" "i < length (candidates cur)" "cstatus (candidates cur ! i) \<noteq> CAck"
    by (auto simp: waiting_def poll_state_def split: option.splits)
  with lt have step: "wait_ack writes did i ackSec started w
                      = wait_ack writes did i ackSec started (sleep writes w)"
    by (subst wait_ack.simps) simp
  have n: "n = ackSec - (k + 1)" "k + 1 \<le> ackSec" using Suc.hyps(2) by simp_all
  have p: "\<forall>j<ackSec - (k + 1). waiting did i (dispatches (poll_state writes (sleep writes w) j))"
    using Suc.prems(1) Suc.hyps(2) by (simp add: poll_state_shift)
  have c: "now (sleep writes w) = started + 1000 * (k + 1)"
    using Suc.prems(2) by (simp add: sleep_def)
  from Suc.hyps(1)[OF n(1) p c n(2)] step n Suc.hyps(2) show ?case
    by (simp add: poll_state_shift)
qed

lemma mark_timeout_post:
  assumes "did < length (dispatches w)" "i < length (candidates (dispatches w ! did))"
  shows "\<exists>d'. find_by_id (dispatches (mark_timeout did i w)) did = Some d' \<and>
              cstatus (candidates d' ! i) = CTimeout \<and> currentIndex d' = i + 1 \<and>
              dstatus d' = dstatus (dispatches w ! did)"
  using assms
  by (simp add: mark_timeout_def find_by_id_def update_by_id_def set_cand_status_def)

text \<open>
  C4, amended: while the worker offers candidate \<open>i\<close> of a dispatch, a rejection does not
  end the wait. When every poll of the window reads the dispatch pending and the
  candidate not acked (rejected or not, and whatever else is written meanwhile), the wait
  lasts the whole \<^verbatim>\<open>ackSec\<close> seconds; then the worker writes \<^verbatim>\<open>timeout\<close> as the
  candidate's status, over what was there, sets \<^verbatim>\<open>currentIndex\<close> to \<open>i + 1\<close>, and goes
  on with the next candidate.
\<close>

theorem rejected_candidate_waits_full_window:
  assumes i: "i < length (candidates d)"
      and there: "did < length (dispatches w)" "i < length (candidates (dispatches w ! did))"
      and polls: "\<forall>k<ackSec. waiting did i (dispatches (poll_state writes w k))"
  shows "\<exists>w2. wait_ack writes did i ackSec (now w)
                 (emit (socketId (candidates d ! i)) ''ride-offer''
                    (OfferData did (captainId (candidates d ! i)) (d_pickup d) (d_destination d)
                       (etaSec (candidates d ! i))) w) = (Elapsed, w2) \<and>
              now w2 = now w + ackSec * 1000 \<and>
              dispatches w2 = dispatches (poll_state writes w ackSec) \<and>
              offer_loop writes fares new_otp did d ackSec i w
                = offer_loop writes fares new_otp did d ackSec (i + 1) (mark_timeout did i w2) \<and>
              (\<exists>d'. find_by_id (dispatches (mark_timeout did i w2)) did = Some d' \<and>
                    cstatus (candidates d' ! i) = CTimeout \<and> currentIndex d' = i + 1)"
proof -
  let ?w1 = "emit (socketId (candidates d ! i)) ''ride-offer''
                    (OfferData did (captainId (candidates d ! i)) (d_pickup d) (d_destination d)
                       (etaSec (candidates d ! i))) w"
  let ?w2 = "poll_state writes ?w1 ackSec"
  have same: "\<And>k. dispatches (poll_state writes ?w1 k) = dispatches (poll_state writes w k)"
    using poll_state_cong[of ?w1 w writes] by (simp add: emit_def)
  have a: "\<forall>j<ackSec - 0. waiting did i (dispatches (poll_state writes ?w1 j))"
    using polls same by simp
  have c: "now ?w1 = now w + 1000 * 0" by (simp add: emit_def)
  from wait_ack_polls[OF a c] have wa: "wait_ack writes did i ackSec (now w) ?w1 = (Elapsed, ?w2)"
    by simp
  have n: "now ?w2 = now w + ackSec * 1000"
    by (simp add: poll_state_now emit_def)
  have l: "did < length (dispatches ?w2)"
    using there(1) by (simp add: same poll_state_length)
  have r: "i < length (candidates (dispatches ?w2 ! did))"
    using there by (simp add: same poll_state_candidates)
  from wa offer_loop_turn[OF i, of writes fares new_otp did ackSec w]
  have t: "offer_loop writes fares new_otp did d ackSec i w
        = offer_loop writes fares new_otp did d ackSec (i + 1) (mark_timeout did i ?w2)"
    by simp
  from mark_timeout_post[OF l r]
  have "\<exists>d'. find_by_id (dispatches (mark_timeout did i ?w2)) did = Some d' \<and>
                    cstatus (candidates d' ! i) = CTimeout \<and> currentIndex d' = i + 1"
    by auto
  with wa n t same[of ackSec] show ?thesis by (intro exI[of _ ?w2]) simp
qed

text \<open>
  C4, as the worker has it: the first captain rejects after 2 of 5 seconds (the write
  alone leaves \<^verbatim>\<open>rejected\<close>, last line). The second offer goes out at second 5, not at
  second 2, and the first candidate ends as \<^verbatim>\<open>timeout\<close>.
\<close>

theorem rejection_waits_and_is_overwritten:
  "map (\<lambda>e. (event e, to_socket e, sent_at e))
     (emitted (snd (offer_job (\<lambda>t. if t = 2000 then [AckOffer 0 11 False] else [])
          (\<lambda>p q. Fail 500 ''down'') ''042917'' (Some 0) (Some 5) None
          (demo_world [demo_dispatch [candA CPending, candB CPending]] []))))
     = [(''ride-offer'', Some ''sA'', 0), (''ride-offer'', Some ''sB'', 5000)]
   \<and> map (\<lambda>d. map cstatus (candidates d))
       (dispatches (snd (offer_job (\<lambda>t. if t = 2000 then [AckOffer 0 11 False] else [])
          (\<lambda>p q. Fail 500 ''down'') ''042917'' (Some 0) (Some 5) None
          (demo_world [demo_dispatch [candA CPending, candB CPending]] []))))
     = [[CTimeout, CTimeout]]
   \<and> map (\<lambda>d. map cstatus (candidates d))
       (fold apply_write [AckOffer 0 11 False] [demo_dispatch [candA CPending, candB CPending]])
     = [[CRejected, CPending]]"
  by (simp add: offer_job_def ack_window_def offer_loop.simps wait_ack.simps demo_world_def demo_dispatch_def
      candA_def candB_def find_by_id_def emit_def sleep_def update_by_id_def mark_timeout_def
      no_candidate_accepted_def set_cand_status_def ack_offer_def Let_def)

text \<open>
  C7, at a failing input: two candidates, a window of 5 seconds, and the dispatch is
  cancelled during the last second of the first window. No poll is left in that window,
  so the job writes \<^verbatim>\<open>timeout\<close> and \<^verbatim>\<open>currentIndex = 1\<close> into the cancelled dispatch
  and sends the second captain a \<^verbatim>\<open>ride-offer\<close>; only the next poll stops it.
\<close>

theorem cancel_in_last_second_unobserved:
  "fst (offer_job (\<lambda>t. if t = 5000 then [SetStatus 0 DCancelled] else [])
          (\<lambda>p q. Fail 500 ''down'') ''042917'' (Some 0) (Some 5) None
          (demo_world [demo_dispatch [candA CPending, candB CPending]] [])) = JobStopped
   \<and> map (\<lambda>e. (event e, to_socket e, sent_at e))
     (emitted (snd (offer_job (\<lambda>t. if t = 5000 then [SetStatus 0 DCancelled] else [])
          (\<lambda>p q. Fail 500 ''down'') ''042917'' (Some 0) (Some 5) None
          (demo_world [demo_dispatch [candA CPending, candB CPending]] []))))
     = [(''ride-offer'', Some ''sA'', 0), (''ride-offer'', Some ''sB'', 5000)]
   \<and> map (\<lambda>d. (dstatus d, currentIndex d, map cstatus (candidates d)))
       (dispatches (snd (offer_job (\<lambda>t. if t = 5000 then [SetStatus 0 DCancelled] else [])
          (\<lambda>p q. Fail 500 ''down'') ''042917'' (Some 0) (Some 5) None
          (demo_world [demo_dispatch [candA CPending, candB CPending]] []))))
     = [(DCancelled, 1, [CTimeout, CPending])]"
  by (simp add: offer_job_def ack_window_def offer_loop.simps wait_ack.simps demo_world_def demo_dispatch_def
      candA_def candB_def find_by_id_def emit_def sleep_def update_by_id_def mark_timeout_def
      no_candidate_accepted_def set_cand_status_def ack_offer_def Let_def)


theorem rejected_candidate_waits_full_window_witness:
  "fst (wait_ack (\<lambda>t. if t = 2000 then [AckOffer 0 11 False, AckOffer 0 12 True] else []) 0 0 5 0
          (emit (Some ''sA'') ''ride-offer'' (OfferData 0 11 ''12.97,77.59'' ''12.93,77.61'' (Some 240))
             (demo_world [demo_dispatch [candA CPending, candB CPending]] []))) = Elapsed
   \<and> now (snd (wait_ack (\<lambda>t. if t = 2000 then [AckOffer 0 11 False, AckOffer 0 12 True] else []) 0 0 5 0
          (emit (Some ''sA'') ''ride-offer'' (OfferData 0 11 ''12.97,77.59'' ''12.93,77.61'' (Some 240))
             (demo_world [demo_dispatch [candA CPending, candB CPending]] [])))) = 5000"
proof -
  let ?d = "demo_dispatch [candA CPending, candB CPending]"
  let ?w = "demo_world [?d] []"
  let ?writes = "\<lambda>t::nat. if t = 2000 then [AckOffer 0 11 False, AckOffer 0 12 True] else []"
  have i: "0 < length (candidates ?d)" by (simp add: demo_dispatch_def)
  have there: "0 < length (dispatches ?w)" "0 < length (candidates (dispatches ?w ! 0))"
    by (simp_all add: demo_world_def demo_dispatch_def)
  have polls: "\<forall>k<5. waiting 0 0 (dispatches (poll_state ?writes ?w k))"
  proof (intro allI impI)
    fix k :: nat
    assume "k < 5"
    then consider "k = 0" | "k = 1" | "k = 2" | "k = 3" | "k = 4" by linarith
    then show "waiting 0 0 (dispatches (poll_state ?writes ?w k))"
      by cases
        (simp_all add: poll_state_def eval_nat_numeral sleep_def waiting_def find_by_id_def
          demo_world_def demo_dispatch_def candA_def candB_def ack_offer_def update_by_id_def
          set_cand_status_def)
  qed
  from rejected_candidate_waits_full_window[OF i there polls, of "\<lambda>p q. Fail 500 ''down''" "''042917''"]
  show ?thesis
    by (auto simp: demo_world_def demo_dispatch_def candA_def)
qed

text \<open>What the worker does observe: a job that loads a dispatch that is not pending
  does nothing, and a poll that reads one stops the job where it is.\<close>

lemma offer_job_not_pending:
  "find_by_id (dispatches w) did = Some d \<Longrightarrow> dstatus d \<noteq> DPending \<Longrightarrow>
   offer_job writes fares new_otp (Some did) jobAckSec envAckSec w = (NoOp, w)"
  by (simp add: offer_job_def)

lemma wait_ack_reads_not_pending:
  "now w - started < ackSec * 1000 \<Longrightarrow> find_by_id (dispatches w) did = Some cur \<Longrightarrow>
   dstatus cur \<noteq> DPending \<Longrightarrow> wait_ack writes did i ackSec started w = (Stopped, w)"
  by (subst wait_ack.simps) simp

end
